theory Spec2Isabelle
  imports Main
begin

section \<open>Data model of \<^verbatim>\<open>src/diagrams.ts\<close>\<close>

text \<open>
  The declarations of \<^verbatim>\<open>./interfaces\<close> are not part of the sources at hand; the types
  below are read off the way \<^verbatim>\<open>diagrams.ts\<close> builds and inspects their values.
  Field names that several interfaces share (\<^verbatim>\<open>name\<close>, \<^verbatim>\<open>pos\<close>, \<^verbatim>\<open>showLabel\<close>,
  \<^verbatim>\<open>x\<close>, \<^verbatim>\<open>y\<close>, \<^verbatim>\<open>shape\<close>, \<^verbatim>\<open>size\<close>) carry a prefix naming their interface.
\<close>

subsection \<open>Numbers\<close>

text \<open>
  Grid coordinates and orders are numbers of the language: IEEE doubles. The diagrams
  considered hold integers there. \<open>Some n\<close> is the double whose value is the integer
  \<open>n\<close>; \<open>None\<close> is a double that is not finite (an infinity or NaN), which a sum can
  produce and which every further sum keeps. The code only adds, subtracts and
  stores these numbers; it never compares them.

  A sum of two doubles is the exact sum rounded to the nearest double, ties to the even
  significand, and is infinite from \<open>2 ^ 1024 - 2 ^ 970\<close> on. For a natural number \<open>m\<close>,
  \<open>bitsOver m\<close> is the number of low bits that do not fit the 53 bit significand and
  \<open>nearest m\<close> the rounded value. Up to \<open>2 ^ 53\<close> in magnitude nothing is rounded.
\<close>

type_synonym number = "int option"

function bitsOver :: "nat \<Rightarrow> nat" where
  "bitsOver m = (if m < 2 ^ 53 then 0 else Suc (bitsOver (m div 2)))"
  by pat_completeness auto
termination
  by (relation "measure id") auto

declare bitsOver.simps [simp del]

definition nearest :: "nat \<Rightarrow> nat" where
  "nearest m =
     (let e = bitsOver m; q = m div 2 ^ e; r = m mod 2 ^ e
      in if 2 ^ e < 2 * r \<or> (2 * r = 2 ^ e \<and> odd q) then (q + 1) * 2 ^ e else q * 2 ^ e)"

definition dbl :: "int \<Rightarrow> number" where
  "dbl n =
     (let m = nearest (nat \<bar>n\<bar>)
      in if 2 ^ 1024 \<le> m then None else Some (if n < 0 then - int m else int m))"

definition numAdd :: "number \<Rightarrow> number \<Rightarrow> number" where
  "numAdd a b =
     (case a of None \<Rightarrow> None
      | Some x \<Rightarrow> (case b of None \<Rightarrow> None | Some y \<Rightarrow> dbl (x + y)))"

definition numSub :: "number \<Rightarrow> number \<Rightarrow> number" where
  "numSub a b =
     (case a of None \<Rightarrow> None
      | Some x \<Rightarrow> (case b of None \<Rightarrow> None | Some y \<Rightarrow> dbl (x - y)))"

subsection \<open>Interfaces\<close>

text \<open>
  \<^verbatim>\<open>Pos\<close>: the four keys of the table in \<^verbatim>\<open>opposite\<close>. At run time a field typed
  \<^verbatim>\<open>Pos\<close> can hold any value (through a cast or an object built by hand); \<open>BadPos s\<close>
  stands for a value that is none of the four strings, known by the string \<open>s\<close> it
  converts to (as a property key and inside a template string).
\<close>

datatype Pos = Left | Right | Up | Down | BadPos string

text \<open>
  Modelled from the spec: the \<^verbatim>\<open>Shape\<close> type of \<^verbatim>\<open>interfaces.ts\<close>
  (circle, rectangle, dot and further visual kinds).
\<close>

datatype Shape = Circle | Rectangle | Dot | OtherShape string

record XY =
  xy_x :: number
  xy_y :: number

datatype RelPos = Start | RelRight | RelDown | At XY

record Index =
  i_name :: string
  i_pos :: Pos
  order :: number
  i_showLabel :: bool

record Tensor =
  t_x :: number
  t_y :: number
  t_name :: string
  t_shape :: Shape
  t_showLabel :: bool
  labPos :: Pos
  t_size :: int
  indices :: "Index list"
  rectHeight :: nat

record TensorOpts =
  o_shape :: "Shape option"
  o_showLabel :: "bool option"
  labelPos :: "Pos option"
  o_size :: "int option"

text \<open>
  Tensors are objects: a contraction holds references to them and \<^verbatim>\<open>addSummation\<close>
  mutates them in place. Every tensor object is allocated by \<^verbatim>\<open>addTensor\<close>, pushed
  once onto \<^verbatim>\<open>this.tensors\<close> with an index array of its own, and never removed, so
  the position of a tensor in \<^verbatim>\<open>this.tensors\<close> is its identity. A reference is that
  position; \<^verbatim>\<open>undefined\<close> is \<open>None\<close>.
\<close>

type_synonym ref = nat

record Contraction =
  source :: "ref option"
  target :: "ref option"
  c_name :: string
  c_pos :: Pos

text \<open>The type of the auxiliary lines is a parameter: no operation inspects a line.\<close>

record 'l Diagram =
  tensors :: "Tensor list"
  contractions :: "Contraction list"
  lines :: "'l list"
  width :: int
  height :: int

text \<open>
  What the code can throw: an \<^verbatim>\<open>Error\<close> with its message, or the \<^verbatim>\<open>TypeError\<close> of the
  run time when a property of \<^verbatim>\<open>undefined\<close> is read. The builder methods mutate
  \<^verbatim>\<open>this\<close>, so a thrown error comes with the diagram as the throw leaves it:
  \<open>Inl (e, d)\<close> is "threw \<open>e\<close>, diagram now \<open>d\<close>", \<open>Inr d\<close> is "returned, diagram now \<open>d\<close>".
\<close>

datatype error = Error string | TypeError

type_synonym 'l outcome = "(error \<times> 'l Diagram) + 'l Diagram"

section \<open>Operations\<close>

text \<open>
  \<^verbatim>\<open>opposite\<close> looks its argument up in a table with the four keys. A value that is
  none of the four strings is converted to a string first: if that string is one of
  the keys, the entry is found all the same; if not, the lookup goes on to what the
  table inherits, which is not part of these sources. The function \<open>inherited\<close>, a
  parameter, gives the result of that lookup for each such string (\<^verbatim>\<open>undefined\<close> for
  most, a method of every object for some): a value that is none of the four strings.
\<close>

fun opposite :: "(string \<Rightarrow> Pos) \<Rightarrow> Pos \<Rightarrow> Pos" where
  "opposite inherited Left = Right"
| "opposite inherited Right = Left"
| "opposite inherited Up = Down"
| "opposite inherited Down = Up"
| "opposite inherited (BadPos s) =
     (if s = ''left'' then Right else if s = ''right'' then Left
      else if s = ''up'' then Down else if s = ''down'' then Up
      else inherited s)"

definition new :: "'l Diagram" where
  "new = \<lparr>tensors = [], contractions = [], lines = [], width = 300, height = 300\<rparr>"

text \<open>A parameter default applies when the argument is \<^verbatim>\<open>undefined\<close>; so does \<^verbatim>\<open>??\<close>.\<close>

fun orElse :: "'a option \<Rightarrow> 'a \<Rightarrow> 'a" where
  "orElse None d = d"
| "orElse (Some v) d = v"

definition createTensor ::
  "number \<Rightarrow> number \<Rightarrow> string \<Rightarrow> Index list option \<Rightarrow> Shape option \<Rightarrow> bool option \<Rightarrow>
   Pos option \<Rightarrow> int option \<Rightarrow> Tensor" where
  "createTensor x y name inds shp showLab labP sz =
     (let inds' = orElse inds [];
          rectH = max (length (filter (\<lambda>index. i_pos index = Right) inds'))
                      (length (filter (\<lambda>index. i_pos index = Left) inds'))
      in \<lparr>t_x = x, t_y = y, t_name = name, t_shape = orElse shp Circle,
          t_showLabel = orElse showLab True, labPos = orElse labP Up,
          t_size = orElse sz 20, indices = inds', rectHeight = rectH\<rparr>)"

definition lastTensor :: "'l Diagram \<Rightarrow> ref option" where
  "lastTensor d = (if tensors d = [] then None else Some (length (tensors d) - 1))"

text \<open>\<^verbatim>\<open>names.map((s, i) => ({name: s, pos: side, order: i, showLabel: true}))\<close>\<close>

definition sideIndices :: "Pos \<Rightarrow> string list \<Rightarrow> Index list" where
  "sideIndices side names =
     map (\<lambda>(i, s). \<lparr>i_name = s, i_pos = side, order = Some (int i), i_showLabel = True\<rparr>)
       (enumerate 0 names)"

text \<open>
  The \<^verbatim>\<open>switch\<close> at the head of \<^verbatim>\<open>addTensor\<close>, up to the first read of \<^verbatim>\<open>pos.x\<close>.
  \<^verbatim>\<open>this.lastTensor\<close> is \<^verbatim>\<open>undefined\<close> on an empty diagram and reading its \<^verbatim>\<open>x\<close> throws;
  an \<^verbatim>\<open>undefined\<close> position (\<^verbatim>\<open>addSummation\<close> passes \<^verbatim>\<open>position!\<close>) falls to the
  \<^verbatim>\<open>default\<close> case and \<^verbatim>\<open>pos.x\<close> throws.
\<close>

definition tensorPos :: "'l Diagram \<Rightarrow> RelPos option \<Rightarrow> error + XY" where
  "tensorPos d position =
     (case position of
        Some Start \<Rightarrow> Inr \<lparr>xy_x = Some 0, xy_y = Some 0\<rparr>
      | Some RelRight \<Rightarrow>
          (case lastTensor d of
             None \<Rightarrow> Inl TypeError
           | Some l \<Rightarrow> Inr \<lparr>xy_x = numAdd (t_x (tensors d ! l)) (Some 1),
                             xy_y = t_y (tensors d ! l)\<rparr>)
      | Some RelDown \<Rightarrow>
          (case lastTensor d of
             None \<Rightarrow> Inl TypeError
           | Some l \<Rightarrow> Inr \<lparr>xy_x = t_x (tensors d ! l),
                             xy_y = numAdd (t_y (tensors d ! l)) (Some 1)\<rparr>)
      | Some (At p) \<Rightarrow> Inr p
      | None \<Rightarrow> Inl TypeError)"

definition addTensor ::
  "string \<Rightarrow> RelPos option \<Rightarrow> string list \<Rightarrow> string list \<Rightarrow> string list \<Rightarrow> string list \<Rightarrow>
   TensorOpts \<Rightarrow> 'l Diagram \<Rightarrow> 'l outcome" where
  "addTensor name position left right up down opts d =
     (case tensorPos d position of
        Inl e \<Rightarrow> Inl (e, d)
      | Inr pos \<Rightarrow>
          (let inds1 = sideIndices Left left;
               inds2 = sideIndices Right right;
               inds3 = sideIndices Up up;
               inds4 = sideIndices Down down;
               inds = inds1 @ inds2 @ inds3 @ inds4;
               bigTensor = (length inds1 > 1 \<or> length inds2 > 1);
               tensor = createTensor (xy_x pos) (xy_y pos) name (Some inds)
                          (Some (orElse (o_shape opts) (if bigTensor then Rectangle else Circle)))
                          (Some (orElse (o_showLabel opts) True))
                          (labelPos opts) (o_size opts)
           in Inr (d\<lparr>tensors := tensors d @ [tensor]\<rparr>)))"

text \<open>\<^verbatim>\<open>this.tensors[i]\<close>: the reference at position \<open>i\<close>, \<^verbatim>\<open>undefined\<close> out of range.\<close>

definition tensorAt :: "'l Diagram \<Rightarrow> int \<Rightarrow> ref option" where
  "tensorAt d i = (if 0 \<le> i \<and> i < int (length (tensors d)) then Some (nat i) else None)"

definition addContraction :: "int \<Rightarrow> int \<Rightarrow> string \<Rightarrow> Pos option \<Rightarrow> 'l Diagram \<Rightarrow> 'l outcome" where
  "addContraction i j name pos d =
     (let contraction = \<lparr>source = tensorAt d i, target = tensorAt d j,
                         c_name = name, c_pos = orElse pos Up\<rparr>
      in Inr (d\<lparr>contractions := contractions d @ [contraction]\<rparr>))"

text \<open>Chaining, \<^verbatim>\<open>d.f(...).g(...)\<close>: the second call runs if the first returned.\<close>

definition andThen :: "'l outcome \<Rightarrow> ('l Diagram \<Rightarrow> 'l outcome) \<Rightarrow> 'l outcome" where
  "andThen r f = (case r of Inl e \<Rightarrow> Inl e | Inr d \<Rightarrow> f d)"

text \<open>The decimal text of a loop counter inside a template string.\<close>

definition digit :: "nat \<Rightarrow> char" where
  "digit n = char_of (48 + n)"

function decimal :: "nat \<Rightarrow> string" where
  "decimal n = (if n < 10 then [digit n] else decimal (n div 10) @ [digit (n mod 10)])"
  by pat_completeness auto
termination
  by (relation "measure id") auto

declare decimal.simps [simp del]

text \<open>
  \<^verbatim>\<open>relevantTensors\<close>: the tensors with some index of that name, as references in
  diagram order. \<^verbatim>\<open>this.tensors.indexOf(t)\<close> of such a reference is the reference.
\<close>

definition hasIndex :: "string \<Rightarrow> Tensor \<Rightarrow> bool" where
  "hasIndex name tensor = list_ex (\<lambda>index. i_name index = name) (indices tensor)"

definition relevantTensors :: "string \<Rightarrow> 'l Diagram \<Rightarrow> ref list" where
  "relevantTensors name d =
     filter (\<lambda>p. hasIndex name (tensors d ! p)) [0..<length (tensors d)]"

definition dotOpts :: TensorOpts where
  "dotOpts = \<lparr>o_shape = Some Dot, o_showLabel = Some False, labelPos = None, o_size = None\<rparr>"

text \<open>Case 1 of \<^verbatim>\<open>addSummation\<close>: the dot beside the one tensor.\<close>

definition posText :: "Pos \<Rightarrow> string" where
  "posText p = (case p of Left \<Rightarrow> ''left'' | Right \<Rightarrow> ''right'' | Up \<Rightarrow> ''up''
                | Down \<Rightarrow> ''down'' | BadPos s \<Rightarrow> s)"

definition summationOne :: "string \<Rightarrow> ref \<Rightarrow> 'l Diagram \<Rightarrow> 'l outcome" where
  "summationOne name oneTensor d =
     (case filter (\<lambda>index. i_name index = name) (indices (tensors d ! oneTensor)) of
        [] \<Rightarrow> Inl (TypeError, d)
      | indOne # _ \<Rightarrow>
          (let t = tensors d ! oneTensor;
               added =
                 (case i_pos indOne of
                    Left \<Rightarrow> addTensor ''dot''
                      (Some (At \<lparr>xy_x = numSub (t_x t) (Some 1),
                                 xy_y = numAdd (t_y t) (order indOne)\<rparr>))
                      [] [name] [] [] dotOpts d
                  | Right \<Rightarrow> addTensor ''dot''
                      (Some (At \<lparr>xy_x = numAdd (t_x t) (Some 1),
                                 xy_y = numAdd (t_y t) (order indOne)\<rparr>))
                      [name] [] [] [] dotOpts d
                  | Up \<Rightarrow> addTensor ''dot''
                      (Some (At \<lparr>xy_x = numAdd (t_x t) (order indOne),
                                 xy_y = numSub (t_y t) (Some 1)\<rparr>))
                      [] [] [] [name] dotOpts d
                  | Down \<Rightarrow> addTensor ''dot''
                      (Some (At \<lparr>xy_x = numAdd (t_x t) (order indOne),
                                 xy_y = numAdd (t_y t) (Some 1)\<rparr>))
                      [] [] [name] [] dotOpts d
                  | BadPos s \<Rightarrow>
                      Inl (Error (''Invalid position '' @ posText (i_pos indOne)
                                  @ '' for index '' @ name), d))
           in case added of
                Inl e \<Rightarrow> Inl e
              | Inr d1 \<Rightarrow>
                  addContraction (int oneTensor) (int (length (tensors d1)) - 1) name None d1))"

text \<open>The default case: one pass of the \<^verbatim>\<open>forEach\<close> body, and the loop.\<close>

fun renameFirst :: "string \<Rightarrow> string \<Rightarrow> Index list \<Rightarrow> Index list" where
  "renameFirst name newName [] = []"
| "renameFirst name newName (ind # inds) =
     (if i_name ind = name then ind\<lparr>i_name := newName\<rparr> # inds
      else ind # renameFirst name newName inds)"

definition summationStep ::
  "(string \<Rightarrow> Pos) \<Rightarrow> string \<Rightarrow> ref \<Rightarrow> ref \<Rightarrow> nat \<Rightarrow> 'l Diagram \<Rightarrow> 'l outcome" where
  "summationStep inherited name dotTensor tensor i d =
     (case find (\<lambda>ind. i_name ind = name) (indices (tensors d ! tensor)) of
        None \<Rightarrow> Inl (TypeError, d)
      | Some index \<Rightarrow>
          (let newName = name @ decimal i;
               dot = tensors d ! dotTensor;
               pushed = \<lparr>i_name = newName, i_pos = opposite inherited (i_pos index),
                         order = Some (int (length
                           (filter (\<lambda>ind. i_pos ind = opposite inherited (i_pos index))
                              (indices dot)))),
                         i_showLabel = False\<rparr>;
               ts1 = (tensors d)[dotTensor := dot\<lparr>indices := indices dot @ [pushed]\<rparr>];
               ts2 = ts1[tensor := (ts1 ! tensor)
                                    \<lparr>indices := renameFirst name newName (indices (ts1 ! tensor))\<rparr>];
               d2 = d\<lparr>tensors := ts2\<rparr>
           in addContraction (int tensor) (int (length (tensors d2)) - 1) newName None d2))"

fun summationLoop ::
  "(string \<Rightarrow> Pos) \<Rightarrow> string \<Rightarrow> ref \<Rightarrow> ref list \<Rightarrow> nat \<Rightarrow> 'l Diagram \<Rightarrow> 'l outcome" where
  "summationLoop inherited name dotTensor [] i d = Inr d"
| "summationLoop inherited name dotTensor (tensor # rest) i d =
     (case summationStep inherited name dotTensor tensor i d of
        Inl e \<Rightarrow> Inl e
      | Inr d' \<Rightarrow> summationLoop inherited name dotTensor rest (Suc i) d')"

definition addSummation ::
  "(string \<Rightarrow> Pos) \<Rightarrow> string \<Rightarrow> XY option \<Rightarrow> 'l Diagram \<Rightarrow> 'l outcome" where
  "addSummation inherited name position d =
     (let relevant = relevantTensors name d in
      case relevant of
        [] \<Rightarrow> Inl (Error (''addSummation error: no tensors with an index '' @ name), d)
      | [oneTensor] \<Rightarrow> summationOne name oneTensor d
      | [a, b] \<Rightarrow> addContraction (int a) (int b) name None d
      | _ \<Rightarrow>
          (case addTensor ''dot'' (map_option At position) [] [] [] [] dotOpts d of
             Inl e \<Rightarrow> Inl e
           | Inr d1 \<Rightarrow>
               (case lastTensor d1 of
                  None \<Rightarrow> Inl (TypeError, d1)
                | Some dotTensor \<Rightarrow> summationLoop inherited name dotTensor relevant 0 d1)))"

definition setSize :: "int \<Rightarrow> int \<Rightarrow> 'l Diagram \<Rightarrow> 'l outcome" where
  "setSize w h d = Inr (d\<lparr>width := w, height := h\<rparr>)"

subsection \<open>Formula derivation\<close>

fun join :: "string \<Rightarrow> string list \<Rightarrow> string" where
  "join sep [] = []"
| "join sep [s] = s"
| "join sep (s # ss) = s @ sep @ join sep ss"

definition pushFree :: "string list \<Rightarrow> string \<Rightarrow> string list \<Rightarrow> string list" where
  "pushFree indicesContracted name indicesFree =
     (if name \<notin> set indicesContracted \<and> name \<notin> set indicesFree
      then indicesFree @ [name] else indicesFree)"

definition indicesFree :: "'l Diagram \<Rightarrow> string list" where
  "indicesFree d =
     (let indicesAll = concat (map (\<lambda>tensor. map i_name (indices tensor)) (tensors d));
          indicesContracted = map c_name (contractions d)
      in fold (pushFree indicesContracted) indicesAll [])"

definition toFormulaEinsum :: "'l Diagram \<Rightarrow> string" where
  "toFormulaEinsum d =
     (let indiceNames = map (\<lambda>tensor. map i_name (indices tensor)) (tensors d);
          tensorNames = map t_name (tensors d);
          indicesPerTensorStr = join '','' (map (\<lambda>ids. join [] ids) indiceNames);
          indicesFreeStr = join [] (indicesFree d);
          tensorNamesStr = join '', '' tensorNames
      in ''einsum('' @ [CHR 0x27] @ indicesPerTensorStr @ ''->'' @ indicesFreeStr
           @ [CHR 0x27] @ '', '' @ tensorNamesStr @ '')'')"

definition looseIndices :: "'l Diagram \<Rightarrow> Index list list" where
  "looseIndices d =
     (let contractedIndicesNames = map c_name (contractions d)
      in map (\<lambda>tensor. filter (\<lambda>index. i_name index \<notin> set contractedIndicesNames)
                         (indices tensor))
           (tensors d))"

section \<open>Notions used to state the properties\<close>

text \<open>What \<^verbatim>\<open>addTensor\<close> pushes once the position is known.\<close>

definition newTensor ::
  "string \<Rightarrow> XY \<Rightarrow> string list \<Rightarrow> string list \<Rightarrow> string list \<Rightarrow> string list \<Rightarrow> TensorOpts \<Rightarrow> Tensor" where
  "newTensor name pos left right up down opts =
     createTensor (xy_x pos) (xy_y pos) name
       (Some (sideIndices Left left @ sideIndices Right right @ sideIndices Up up @ sideIndices Down down))
       (Some (orElse (o_shape opts)
          (if length left > 1 \<or> length right > 1 then Rectangle else Circle)))
       (Some (orElse (o_showLabel opts) True)) (labelPos opts) (o_size opts)"

text \<open>The diagram a call leaves behind, whether it returned or threw.\<close>

definition stateAfter :: "'l outcome \<Rightarrow> 'l Diagram" where
  "stateAfter r = (case r of Inl (e, d) \<Rightarrow> d | Inr d \<Rightarrow> d)"

text \<open>
  A call keeps the layout hints when the tensors that were there before it are still
  there, each with the \<^verbatim>\<open>rectHeight\<close> it had.
\<close>

definition keepsRectHeights :: "'l Diagram \<Rightarrow> 'l outcome \<Rightarrow> bool" where
  "keepsRectHeights d r =
     (map rectHeight (take (length (tensors d)) (tensors (stateAfter r)))
        = map rectHeight (tensors d))"

text \<open>How many indices a list has on a side.\<close>

definition onSide :: "Pos \<Rightarrow> Index list \<Rightarrow> nat" where
  "onSide side inds = length (filter (\<lambda>index. i_pos index = side) inds)"

text \<open>The names a diagram carries: on loose indices, in contractions, on any index.\<close>

definition looseNames :: "'l Diagram \<Rightarrow> string set" where
  "looseNames d = set (map i_name (concat (looseIndices d)))"

definition contractedNames :: "'l Diagram \<Rightarrow> string set" where
  "contractedNames d = set (map c_name (contractions d))"

definition indexNames :: "'l Diagram \<Rightarrow> string set" where
  "indexNames d = set (map i_name (concat (map indices (tensors d))))"

text \<open>
  The einsum string as the specification words it. All index names in encounter order;
  the free names, being the first occurrences of the names that no contraction
  carries; a list of strings with a separator between neighbours.
\<close>

definition flatNames :: "'l Diagram \<Rightarrow> string list" where
  "flatNames d = concat (map (\<lambda>tensor. map i_name (indices tensor)) (tensors d))"

definition freeNames :: "'l Diagram \<Rightarrow> string list" where
  "freeNames d =
     map (\<lambda>k. flatNames d ! k)
       (filter (\<lambda>k. flatNames d ! k \<notin> contractedNames d
                     \<and> flatNames d ! k \<notin> set (take k (flatNames d)))
          [0..<length (flatNames d)])"

definition separated :: "string \<Rightarrow> string list \<Rightarrow> string" where
  "separated sep ss =
     (case ss of [] \<Rightarrow> [] | s # rest \<Rightarrow> s @ concat (map (\<lambda>t. sep @ t) rest))"

definition einsumSpec :: "'l Diagram \<Rightarrow> string" where
  "einsumSpec d =
     ''einsum('' @ [CHR 0x27]
       @ separated '','' (map (\<lambda>tensor. concat (map i_name (indices tensor))) (tensors d))
       @ ''->'' @ concat (freeNames d) @ [CHR 0x27] @ '', ''
       @ separated '', '' (map t_name (tensors d)) @ '')''"

text \<open>
  The dot of a one-tensor summation as the specification places it, in integers: for a
  tensor at \<open>(x, y)\<close> and an index of order \<open>k\<close> on \<open>side\<close>, the dot's coordinates and
  the side of the dot's index. No placement for a side outside the four.
\<close>

definition dotBeside :: "Pos \<Rightarrow> int \<Rightarrow> int \<Rightarrow> int \<Rightarrow> (int \<times> int \<times> Pos) option" where
  "dotBeside side x y k =
     (case side of
        Left \<Rightarrow> Some (x - 1, y + k, Right)
      | Right \<Rightarrow> Some (x + 1, y + k, Left)
      | Up \<Rightarrow> Some (x + k, y - 1, Down)
      | Down \<Rightarrow> Some (x + k, y + 1, Up)
      | BadPos s \<Rightarrow> None)"

definition dotWith :: "int \<Rightarrow> int \<Rightarrow> Pos \<Rightarrow> string \<Rightarrow> Tensor" where
  "dotWith x y side name =
     \<lparr>t_x = Some x, t_y = Some y, t_name = ''dot'', t_shape = Dot, t_showLabel = False,
      labPos = Up, t_size = 20,
      indices = [\<lparr>i_name = name, i_pos = side, order = Some 0, i_showLabel = True\<rparr>],
      rectHeight = (if side = Left \<or> side = Right then 1 else 0)\<rparr>"






text \<open>
  The default case of \<^verbatim>\<open>addSummation\<close> in parts: the index of a tensor that carries the
  name (its first, as \<^verbatim>\<open>find\<close> returns it); the index pushed onto the dot in pass \<open>k\<close>
  for an original index on \<open>side\<close>, given the dot's indices so far; the dot's indices
  after all passes; the dot as \<^verbatim>\<open>addTensor\<close> creates it; a tensor after pass \<open>k\<close> renamed
  its index; the contraction recorded for tensor \<open>p\<close> in pass \<open>k\<close>.
\<close>

definition firstNamed :: "string \<Rightarrow> Tensor \<Rightarrow> Index" where
  "firstNamed name t = hd (filter (\<lambda>ind. i_name ind = name) (indices t))"

definition dotIndex :: "(string \<Rightarrow> Pos) \<Rightarrow> string \<Rightarrow> nat \<Rightarrow> Pos \<Rightarrow> Index list \<Rightarrow> Index" where
  "dotIndex inherited name k side dotInds =
     \<lparr>i_name = name @ decimal k, i_pos = opposite inherited side,
      order = Some (int (length (filter (\<lambda>ind. i_pos ind = opposite inherited side) dotInds))),
      i_showLabel = False\<rparr>"

fun dotPushes ::
  "(string \<Rightarrow> Pos) \<Rightarrow> string \<Rightarrow> Pos list \<Rightarrow> nat \<Rightarrow> Index list \<Rightarrow> Index list" where
  "dotPushes inherited name [] i acc = acc"
| "dotPushes inherited name (s # ss) i acc =
     dotPushes inherited name ss (Suc i) (acc @ [dotIndex inherited name i s acc])"

definition emptyDot :: "XY \<Rightarrow> Tensor" where
  "emptyDot xy =
     \<lparr>t_x = xy_x xy, t_y = xy_y xy, t_name = ''dot'', t_shape = Dot, t_showLabel = False,
      labPos = Up, t_size = 20, indices = [], rectHeight = 0\<rparr>"

definition renamed :: "string \<Rightarrow> nat \<Rightarrow> Tensor \<Rightarrow> Tensor" where
  "renamed name k t = t\<lparr>indices := renameFirst name (name @ decimal k) (indices t)\<rparr>"

definition summed :: "string \<Rightarrow> ref \<Rightarrow> nat \<times> ref \<Rightarrow> Contraction" where
  "summed name dot kp =
     \<lparr>source = Some (snd kp), target = Some dot, c_name = name @ decimal (fst kp), c_pos = Up\<rparr>"

text \<open>A tensor carries a name when one of its indices has it.\<close>

definition carries :: "string \<Rightarrow> Tensor \<Rightarrow> bool" where
  "carries name t = (name \<in> set (map i_name (indices t)))"

subsection \<open>Example diagrams\<close>

text \<open>A table that inherits nothing: every lookup outside its keys is \<^verbatim>\<open>undefined\<close>.\<close>

definition noInherited :: "string \<Rightarrow> Pos" where
  "noInherited s = BadPos ''undefined''"

definition noOpts :: TensorOpts where
  "noOpts = \<lparr>o_shape = None, o_showLabel = None, labelPos = None, o_size = None\<rparr>"

text \<open>A circle tensor without optional settings.\<close>

definition circleAt :: "int \<Rightarrow> int \<Rightarrow> string \<Rightarrow> Index list \<Rightarrow> Tensor" where
  "circleAt x y name inds =
     \<lparr>t_x = Some x, t_y = Some y, t_name = name, t_shape = Circle, t_showLabel = True,
      labPos = Up, t_size = 20, indices = inds,
      rectHeight = max (onSide Right inds) (onSide Left inds)\<rparr>"

definition shown :: "string \<Rightarrow> Pos \<Rightarrow> int \<Rightarrow> Index" where
  "shown name side k = \<lparr>i_name = name, i_pos = side, order = Some k, i_showLabel = True\<rparr>"

definition hidden :: "string \<Rightarrow> Pos \<Rightarrow> int \<Rightarrow> Index" where
  "hidden name side k = \<lparr>i_name = name, i_pos = side, order = Some k, i_showLabel = False\<rparr>"

definition between :: "ref \<Rightarrow> ref \<Rightarrow> string \<Rightarrow> Contraction" where
  "between a b name = \<lparr>source = Some a, target = Some b, c_name = name, c_pos = Up\<rparr>"

definition diagramOf :: "Tensor list \<Rightarrow> Contraction list \<Rightarrow> unit Diagram" where
  "diagramOf ts cs = \<lparr>tensors = ts, contractions = cs, lines = [], width = 300, height = 300\<rparr>"

text \<open>\<^verbatim>\<open>new().addTensor("A", "start", ["i"])\<close>\<close>

definition singleA :: "unit Diagram" where
  "singleA = diagramOf [circleAt 0 0 ''A'' [shown ''i'' Left 0]] []"

text \<open>
  \<^verbatim>\<open>new().addTensor("A", "start", ["i"], ["j"]).addTensor("B", "right", ["j"], ["k"])
         .addSummation("j")\<close>
\<close>

definition matmul :: "unit Diagram" where
  "matmul = diagramOf
     [circleAt 0 0 ''A'' [shown ''i'' Left 0, shown ''j'' Right 0],
      circleAt 1 0 ''B'' [shown ''j'' Left 0, shown ''k'' Right 0]]
     [between 0 1 ''j'']"

text \<open>
  \<^verbatim>\<open>new().addTensor("A", "start", ["k"]).addTensor("B", "right", ["k"])
         .addTensor("C", "down", [], [], ["k"])\<close>
\<close>

definition threeK :: "unit Diagram" where
  "threeK = diagramOf
     [circleAt 0 0 ''A'' [shown ''k'' Left 0],
      circleAt 1 0 ''B'' [shown ''k'' Left 0],
      circleAt 1 1 ''C'' [shown ''k'' Up 0]] []"

text \<open>The same diagram after \<^verbatim>\<open>.addSummation("k", {x: 5, y: 5})\<close>.\<close>

definition threeKsummed :: "unit Diagram" where
  "threeKsummed = diagramOf
     [circleAt 0 0 ''A'' [shown ''k0'' Left 0],
      circleAt 1 0 ''B'' [shown ''k1'' Left 0],
      circleAt 1 1 ''C'' [shown ''k2'' Up 0],
      (emptyDot \<lparr>xy_x = Some 5, xy_y = Some 5\<rparr>)
        \<lparr>indices := [hidden ''k0'' Right 0, hidden ''k1'' Right 1, hidden ''k2'' Down 0]\<rparr>]
     [between 0 3 ''k0'', between 1 3 ''k1'', between 2 3 ''k2'']"

text \<open>
  \<^verbatim>\<open>new().addTensor("A", "start", ["k"]).addTensor("B", "right", ["k"]).addSummation("k")
         .addTensor("C", "down", ["k"]).addTensor("D", "right", ["k"])
         .addSummation("k", {x: 5, y: 5})\<close>: the contraction \<open>k\<close> of the first summation stays
  while the second renames every index \<open>k\<close>.
\<close>

definition twiceSummed :: "unit Diagram" where
  "twiceSummed = diagramOf
     [circleAt 0 0 ''A'' [shown ''k0'' Left 0],
      circleAt 1 0 ''B'' [shown ''k1'' Left 0],
      circleAt 1 1 ''C'' [shown ''k2'' Left 0],
      circleAt 2 1 ''D'' [shown ''k3'' Left 0],
      (emptyDot \<lparr>xy_x = Some 5, xy_y = Some 5\<rparr>)
        \<lparr>indices := [hidden ''k0'' Right 0, hidden ''k1'' Right 1, hidden ''k2'' Right 2,
                      hidden ''k3'' Right 3]\<rparr>]
     [between 0 1 ''k'', between 0 4 ''k0'', between 1 4 ''k1'', between 2 4 ''k2'',
      between 3 4 ''k3'']"

text \<open>One tensor at \<open>(x, y)\<close> with two indices \<open>a\<close>, \<open>i\<close> on the given side.\<close>

definition oneIndex :: "int \<Rightarrow> int \<Rightarrow> Pos \<Rightarrow> unit Diagram" where
  "oneIndex x y side = diagramOf
     [(circleAt x y ''T'' [shown ''a'' side 0, shown ''i'' side 1])
        \<lparr>t_shape := (if side = Left \<or> side = Right then Rectangle else Circle)\<rparr>] []"

section \<open>Building blocks\<close>

subsection \<open>Numbers up to \<open>2 ^ 53\<close> are exact\<close>

lemma nearest_small: "m \<le> 2 ^ 53 \<Longrightarrow> nearest m = m"
proof (cases "m < 2 ^ 53")
  case True
  then have "bitsOver m = 0" by (simp add: bitsOver.simps)
  then show ?thesis by (simp add: nearest_def)
next
  case False
  assume "m \<le> 2 ^ 53"
  with False have m: "m = 2 ^ 53" by simp
  have "bitsOver (2 ^ 53) = Suc (bitsOver (2 ^ 52))"
    by (subst bitsOver.simps) simp
  also have "bitsOver (2 ^ 52) = 0"
    by (subst bitsOver.simps) simp
  finally have "bitsOver m = 1" by (simp add: m)
  then show ?thesis by (simp add: nearest_def m)
qed

lemma dbl_safe: "\<bar>n\<bar> \<le> 2 ^ 53 \<Longrightarrow> dbl n = Some n"
proof -
  assume a: "\<bar>n\<bar> \<le> 2 ^ 53"
  then have le: "nat \<bar>n\<bar> \<le> 2 ^ 53" by simp
  have "(2::nat) ^ 53 < 2 ^ 1024" by (rule power_strict_increasing) simp_all
  with le have "\<not> 2 ^ 1024 \<le> nat \<bar>n\<bar>" by linarith
  then show ?thesis
    by (simp add: dbl_def nearest_small [OF le] Let_def del: power_strict_increasing_iff)
qed

lemma numAdd_safe: "\<bar>x + y\<bar> \<le> 2 ^ 53 \<Longrightarrow> numAdd (Some x) (Some y) = Some (x + y)"
  by (simp add: numAdd_def dbl_safe)

lemma numSub_safe: "\<bar>x - y\<bar> \<le> 2 ^ 53 \<Longrightarrow> numSub (Some x) (Some y) = Some (x - y)"
  by (simp add: numSub_def dbl_safe)

lemma dbl_past_safe:
  "dbl (2 ^ 53 + 1) = Some (2 ^ 53)" "dbl (- (2 ^ 53) - 1) = Some (- (2 ^ 53))"
  by (simp_all add: dbl_def nearest_def bitsOver.simps Let_def)

subsection \<open>Adding tensors and contractions\<close>

lemmas example_defs = diagramOf_def circleAt_def shown_def hidden_def between_def onSide_def

lemma singleA_built: "addTensor ''A'' (Some Start) [''i''] [] [] [] noOpts new = Inr singleA"
  by (simp add: addTensor_def tensorPos_def new_def noOpts_def singleA_def sideIndices_def
        createTensor_def example_defs)

lemma filter_upt_nth_empty:
  "filter (\<lambda>p. P (xs ! p)) [0..<length xs] = [] \<longleftrightarrow> (\<forall>x \<in> set xs. \<not> P x)"
  by (auto simp: filter_empty_conv all_set_conv_all_nth)

lemma relevantTensors_Nil:
  "relevantTensors name d = [] \<longleftrightarrow> (\<forall>t \<in> set (tensors d). \<forall>ind \<in> set (indices t). i_name ind \<noteq> name)"
  unfolding relevantTensors_def filter_upt_nth_empty by (simp add: hasIndex_def list_ex_iff)

lemma addTensor_Inr:
  "tensorPos d position = Inr pos \<Longrightarrow>
   addTensor name position left right up down opts d
     = Inr (d\<lparr>tensors := tensors d @ [newTensor name pos left right up down opts]\<rparr>)"
  by (simp add: addTensor_def newTensor_def sideIndices_def)

lemma addTensor_Inl:
  "tensorPos d position = Inl e \<Longrightarrow>
   addTensor name position left right up down opts d = Inl (e, d)"
  by (simp add: addTensor_def)

lemma newTensor_xy [simp]:
  "t_x (newTensor name pos left right up down opts) = xy_x pos"
  "t_y (newTensor name pos left right up down opts) = xy_y pos"
  by (simp_all add: newTensor_def createTensor_def Let_def)

lemma relevant_ge3:
  "3 \<le> length (relevantTensors name d) \<Longrightarrow> \<exists>a b c rest. relevantTensors name d = a # b # c # rest"
  by (auto simp: numeral_3_eq_3 Suc_le_length_iff)

lemma relevantTensors_mem:
  "p \<in> set (relevantTensors name d) \<longleftrightarrow> p < length (tensors d) \<and> hasIndex name (tensors d ! p)"
  by (auto simp: relevantTensors_def)

lemma hasIndex_filter: "hasIndex name t \<longleftrightarrow> filter (\<lambda>index. i_name index = name) (indices t) \<noteq> []"
  by (simp add: hasIndex_def list_ex_iff filter_empty_conv)

lemma tensorPos_At: "tensorPos d (Some (At xy)) = Inr xy"
  by (simp add: tensorPos_def)

lemma newTensor_dot:
  "newTensor ''dot'' \<lparr>xy_x = Some x, xy_y = Some y\<rparr> [] [name] [] [] dotOpts = dotWith x y Right name"
  "newTensor ''dot'' \<lparr>xy_x = Some x, xy_y = Some y\<rparr> [name] [] [] [] dotOpts = dotWith x y Left name"
  "newTensor ''dot'' \<lparr>xy_x = Some x, xy_y = Some y\<rparr> [] [] [] [name] dotOpts = dotWith x y Down name"
  "newTensor ''dot'' \<lparr>xy_x = Some x, xy_y = Some y\<rparr> [] [] [name] [] dotOpts = dotWith x y Up name"
  by (simp_all add: newTensor_def createTensor_def sideIndices_def dotOpts_def dotWith_def)

lemma addContraction_refs:
  "p < length (tensors d) \<Longrightarrow> q < length (tensors d) \<Longrightarrow>
   addContraction (int p) (int q) name None d
     = Inr (d\<lparr>contractions := contractions d @
               [\<lparr>source = Some p, target = Some q, c_name = name, c_pos = Up\<rparr>]\<rparr>)"
  by (simp add: addContraction_def tensorAt_def)

subsection \<open>The loop of the default case\<close>

lemma find_hd_filter: "\<exists>x \<in> set xs. P x \<Longrightarrow> find P xs = Some (hd (filter P xs))"
  by (induction xs) auto

lemma find_firstNamed:
  "hasIndex name t \<Longrightarrow> find (\<lambda>ind. i_name ind = name) (indices t) = Some (firstNamed name t)"
  unfolding hasIndex_def firstNamed_def list_ex_iff by (rule find_hd_filter)

lemma summationStep_Inr:
  assumes m: "m < length (tensors d)" and p: "p < length (tensors d)" and pm: "p \<noteq> m"
    and has: "hasIndex name (tensors d ! p)"
  shows "summationStep inh name m p i d
     = Inr (d\<lparr>tensors := (tensors d)
                [m := (tensors d ! m)\<lparr>indices := indices (tensors d ! m)
                        @ [dotIndex inh name i (i_pos (firstNamed name (tensors d ! p)))
                             (indices (tensors d ! m))]\<rparr>,
                 p := renamed name i (tensors d ! p)],
              contractions := contractions d @
                [\<lparr>source = Some p, target = Some (length (tensors d) - 1),
                  c_name = name @ decimal i, c_pos = Up\<rparr>]\<rparr>)"
proof -
  have len: "int (length (tensors d)) - 1 = int (length (tensors d) - 1)"
    using m by simp
  have lt: "length (tensors d) - 1 < length (tensors d)"
    using m by simp
  show ?thesis
    unfolding summationStep_def find_firstNamed [OF has] option.case Let_def
    using m p pm lt
    by (simp add: len addContraction_refs dotIndex_def renamed_def del: of_nat_diff)
qed

lemma summationLoop_Inr:
  assumes "distinct ps"
    and "\<forall>p \<in> set ps. p < length (tensors d) \<and> p \<noteq> m \<and> hasIndex name (tensors d ! p)"
    and "m < length (tensors d)"
  shows "\<exists>ts'. summationLoop inh name m ps i d
            = Inr (d\<lparr>tensors := ts',
                    contractions := contractions d
                      @ map (summed name (length (tensors d) - 1)) (enumerate i ps)\<rparr>)
     \<and> length ts' = length (tensors d)
     \<and> (\<forall>q < length (tensors d). q \<notin> set ps \<longrightarrow> q \<noteq> m \<longrightarrow> ts' ! q = tensors d ! q)
     \<and> (\<forall>j < length ps. ts' ! (ps ! j) = renamed name (i + j) (tensors d ! (ps ! j)))
     \<and> ts' ! m = (tensors d ! m)\<lparr>indices :=
           dotPushes inh name (map (\<lambda>p. i_pos (firstNamed name (tensors d ! p))) ps) i
             (indices (tensors d ! m))\<rparr>"
  using assms
proof (induction ps arbitrary: i d)
  case Nil
  show ?case by (rule exI [of _ "tensors d"]) simp
next
  case (Cons p ps)
  let ?ts = "tensors d"
  let ?A = "(?ts ! m)\<lparr>indices := indices (?ts ! m)
               @ [dotIndex inh name i (i_pos (firstNamed name (?ts ! p))) (indices (?ts ! m))]\<rparr>"
  let ?ts2 = "?ts[m := ?A, p := renamed name i (?ts ! p)]"
  define d2 where "d2 = d\<lparr>tensors := ?ts2,
      contractions := contractions d @ [summed name (length ?ts - 1) (i, p)]\<rparr>"
  from Cons.prems have p: "p < length ?ts" "p \<noteq> m" "hasIndex name (?ts ! p)"
    and m: "m < length ?ts" and notin: "p \<notin> set ps" and dist: "distinct ps"
    and rest: "\<forall>q \<in> set ps. q < length ?ts \<and> q \<noteq> m \<and> hasIndex name (?ts ! q)"
    by simp_all
  have step: "summationStep inh name m p i d = Inr d2"
    unfolding d2_def summed_def using summationStep_Inr [OF m p, where inh = inh and i = i] by simp
  have ts2: "tensors d2 = ?ts2" and c2: "contractions d2
      = contractions d @ [summed name (length ?ts - 1) (i, p)]"
    by (simp_all add: d2_def)
  have len2: "length (tensors d2) = length ?ts"
    by (simp add: ts2)
  have same: "tensors d2 ! q = ?ts ! q" if "q \<noteq> m" "q \<noteq> p" for q
    using that by (simp add: ts2)
  have atp: "tensors d2 ! p = renamed name i (?ts ! p)"
    using p by (simp add: ts2)
  have atm: "tensors d2 ! m = ?A"
    using p m by (simp add: ts2)
  have other: "q \<noteq> m \<and> q \<noteq> p \<and> q < length ?ts \<and> hasIndex name (?ts ! q)"
    if "q \<in> set ps" for q
    using that rest notin by auto
  have rest2: "\<forall>q \<in> set ps. q < length (tensors d2) \<and> q \<noteq> m \<and> hasIndex name (tensors d2 ! q)"
    using other by (simp add: len2 same)
  have m2: "m < length (tensors d2)"
    using m by (simp add: len2)
  from Cons.IH [OF dist rest2 m2, of "Suc i"] obtain ts'
    where run: "summationLoop inh name m ps (Suc i) d2
            = Inr (d2\<lparr>tensors := ts',
                    contractions := contractions d2
                      @ map (summed name (length (tensors d2) - 1)) (enumerate (Suc i) ps)\<rparr>)"
      and len': "length ts' = length (tensors d2)"
      and keep: "\<forall>q < length (tensors d2). q \<notin> set ps \<longrightarrow> q \<noteq> m \<longrightarrow> ts' ! q = tensors d2 ! q"
      and ren: "\<forall>j < length ps. ts' ! (ps ! j) = renamed name (Suc i + j) (tensors d2 ! (ps ! j))"
      and dot: "ts' ! m = (tensors d2 ! m)\<lparr>indices :=
           dotPushes inh name (map (\<lambda>p. i_pos (firstNamed name (tensors d2 ! p))) ps) (Suc i)
             (indices (tensors d2 ! m))\<rparr>"
    by blast
  have sides: "map (\<lambda>q. i_pos (firstNamed name (tensors d2 ! q))) ps
             = map (\<lambda>q. i_pos (firstNamed name (?ts ! q))) ps"
    using other by (intro map_cong refl) (simp add: same)
  have 1: "summationLoop inh name m (p # ps) i d
            = Inr (d\<lparr>tensors := ts',
                    contractions := contractions d
                      @ map (summed name (length ?ts - 1)) (enumerate i (p # ps))\<rparr>)"
    by (simp add: step run len2 c2) (simp add: d2_def)
  have 2: "length ts' = length ?ts"
    by (simp add: len' len2)
  have 3: "ts' ! q = ?ts ! q" if "q < length ?ts" "q \<notin> set (p # ps)" "q \<noteq> m" for q
    using that keep by (simp add: len2 same)
  have 4: "ts' ! ((p # ps) ! j) = renamed name (i + j) (?ts ! ((p # ps) ! j))"
    if "j < length (p # ps)" for j
  proof (cases j)
    case 0
    then show ?thesis
      using keep p notin by (simp add: len2 atp)
  next
    case (Suc j')
    with that have j': "j' < length ps" by simp
    then have "ps ! j' \<in> set ps" by simp
    with other have "ps ! j' \<noteq> m" "ps ! j' \<noteq> p" by auto
    then show ?thesis
      using ren j' Suc by (simp add: same)
  qed
  have 5: "ts' ! m = (?ts ! m)\<lparr>indices :=
           dotPushes inh name (map (\<lambda>p. i_pos (firstNamed name (?ts ! p))) (p # ps)) i
             (indices (?ts ! m))\<rparr>"
    by (simp add: dot sides atm)
  from 1 2 3 4 5 show ?case by blast
qed

lemma newTensor_emptyDot: "newTensor ''dot'' xy [] [] [] [] dotOpts = emptyDot xy"
  by (simp add: newTensor_def createTensor_def sideIndices_def dotOpts_def emptyDot_def)

lemma distinct_relevantTensors: "distinct (relevantTensors name d)"
  by (simp add: relevantTensors_def)

lemma addSummation_default:
  "3 \<le> length (relevantTensors name d) \<Longrightarrow>
   addSummation inh name (Some xy) d
     = summationLoop inh name (length (tensors d)) (relevantTensors name d) 0
         (d\<lparr>tensors := tensors d @ [emptyDot xy]\<rparr>)"
proof -
  assume "3 \<le> length (relevantTensors name d)"
  then obtain a b c rest where "relevantTensors name d = a # b # c # rest"
    using relevant_ge3 by blast
  then show ?thesis
    by (simp add: addSummation_def addTensor_Inr [OF tensorPos_At] newTensor_emptyDot
          lastTensor_def)
qed

lemma addSummation_many:
  assumes "3 \<le> length (relevantTensors name d)"
  shows "\<exists>ts'. addSummation inh name (Some xy) d
            = Inr (d\<lparr>tensors := ts',
                    contractions := contractions d
                      @ map (summed name (length (tensors d)))
                          (enumerate 0 (relevantTensors name d))\<rparr>)
     \<and> length ts' = Suc (length (tensors d))
     \<and> (\<forall>q < length (tensors d). q \<notin> set (relevantTensors name d) \<longrightarrow> ts' ! q = tensors d ! q)
     \<and> (\<forall>j < length (relevantTensors name d).
           ts' ! (relevantTensors name d ! j)
             = renamed name j (tensors d ! (relevantTensors name d ! j)))
     \<and> ts' ! length (tensors d) = (emptyDot xy)\<lparr>indices :=
           dotPushes inh name
             (map (\<lambda>p. i_pos (firstNamed name (tensors d ! p))) (relevantTensors name d)) 0 []\<rparr>"
proof -
  let ?rel = "relevantTensors name d"
  let ?m = "length (tensors d)"
  define d1 where "d1 = d\<lparr>tensors := tensors d @ [emptyDot xy]\<rparr>"
  have ts1: "tensors d1 = tensors d @ [emptyDot xy]" and c1: "contractions d1 = contractions d"
    by (simp_all add: d1_def)
  have old: "p < ?m \<and> hasIndex name (tensors d ! p)" if "p \<in> set ?rel" for p
    using that by (simp add: relevantTensors_mem)
  have pre: "\<forall>p \<in> set ?rel. p < length (tensors d1) \<and> p \<noteq> ?m \<and> hasIndex name (tensors d1 ! p)"
  proof
    fix p assume "p \<in> set ?rel"
    then have "p < ?m" "hasIndex name (tensors d ! p)" using old by auto
    then show "p < length (tensors d1) \<and> p \<noteq> ?m \<and> hasIndex name (tensors d1 ! p)"
      by (simp add: ts1 nth_append)
  qed
  have m1: "?m < length (tensors d1)"
    by (simp add: ts1)
  from summationLoop_Inr [OF distinct_relevantTensors pre m1, where i = 0 and inh = inh] obtain ts'
    where run: "summationLoop inh name ?m ?rel 0 d1
            = Inr (d1\<lparr>tensors := ts',
                    contractions := contractions d1
                      @ map (summed name (length (tensors d1) - 1)) (enumerate 0 ?rel)\<rparr>)"
      and len': "length ts' = length (tensors d1)"
      and keep: "\<forall>q < length (tensors d1). q \<notin> set ?rel \<longrightarrow> q \<noteq> ?m \<longrightarrow> ts' ! q = tensors d1 ! q"
      and ren: "\<forall>j < length ?rel. ts' ! (?rel ! j) = renamed name (0 + j) (tensors d1 ! (?rel ! j))"
      and dot: "ts' ! ?m = (tensors d1 ! ?m)\<lparr>indices :=
           dotPushes inh name (map (\<lambda>p. i_pos (firstNamed name (tensors d1 ! p))) ?rel) 0
             (indices (tensors d1 ! ?m))\<rparr>"
    by blast
  have sides: "map (\<lambda>p. i_pos (firstNamed name (tensors d1 ! p))) ?rel
             = map (\<lambda>p. i_pos (firstNamed name (tensors d ! p))) ?rel"
    using old by (intro map_cong refl) (simp add: ts1 nth_append)
  have 1: "addSummation inh name (Some xy) d
            = Inr (d\<lparr>tensors := ts',
                    contractions := contractions d
                      @ map (summed name ?m) (enumerate 0 ?rel)\<rparr>)"
    unfolding addSummation_default [OF assms] d1_def [symmetric] run
    by (simp add: c1 ts1) (simp add: d1_def)
  have 2: "length ts' = Suc ?m"
    by (simp add: len' ts1)
  have 3: "ts' ! q = tensors d ! q" if "q < ?m" "q \<notin> set ?rel" for q
    using that keep by (simp add: ts1 nth_append)
  have 4: "ts' ! (?rel ! j) = renamed name j (tensors d ! (?rel ! j))" if "j < length ?rel" for j
  proof -
    from that have "?rel ! j \<in> set ?rel" by simp
    then have "?rel ! j < ?m" using old by blast
    then show ?thesis using ren that by (simp add: ts1 nth_append)
  qed
  have 5: "ts' ! ?m = (emptyDot xy)\<lparr>indices :=
           dotPushes inh name (map (\<lambda>p. i_pos (firstNamed name (tensors d ! p))) ?rel) 0 []\<rparr>"
    unfolding dot sides by (simp add: ts1 emptyDot_def)
  from 1 2 3 4 5 show ?thesis by blast
qed

lemma decimal_nonempty: "decimal n \<noteq> []"
  by (subst decimal.simps) simp

lemma fresh_name: "name @ decimal k \<noteq> name"
  by (simp add: decimal_nonempty)

lemma renameFirst_unique:
  "length (filter (\<lambda>ind. i_name ind = name) inds) = 1 \<Longrightarrow>
   renameFirst name nn inds
     = map (\<lambda>ind. if i_name ind = name then ind\<lparr>i_name := nn\<rparr> else ind) inds"
proof (induction inds)
  case Nil
  then show ?case by simp
next
  case (Cons ind inds)
  show ?case
  proof (cases "i_name ind = name")
    case True
    with Cons.prems have "filter (\<lambda>ind. i_name ind = name) inds = []" by simp
    then have "\<forall>x \<in> set inds. i_name x \<noteq> name" by (simp add: filter_empty_conv)
    then have "map (\<lambda>ind. if i_name ind = name then ind\<lparr>i_name := nn\<rparr> else ind) inds = inds"
      by (intro map_idI) simp
    with True show ?thesis by simp
  next
    case False
    with Cons show ?thesis by simp
  qed
qed

lemma length_renameFirst [simp]: "length (renameFirst name nn inds) = length inds"
  by (induction inds) simp_all

lemma dotPushes_length: "length (dotPushes inh name ss i acc) = length acc + length ss"
  by (induction ss arbitrary: i acc) simp_all



lemma dotPushes_names:
  "ind \<in> set (dotPushes inh name ss i acc) \<Longrightarrow> ind \<in> set acc \<or> (\<exists>k. i_name ind = name @ decimal k)"
proof (induction ss arbitrary: i acc)
  case Nil
  then show ?case by simp
next
  case (Cons s ss)
  from Cons.IH [of "Suc i" "acc @ [dotIndex inh name i s acc]"] Cons.prems
  show ?case by (auto simp: dotIndex_def)
qed


lemma hasIndex_carries: "hasIndex name t = carries name t"
  by (auto simp: hasIndex_def carries_def list_ex_iff)

lemma not_carries_iff:
  "\<not> list_ex (carries name) ts \<longleftrightarrow> (\<forall>t \<in> set ts. \<forall>ind \<in> set (indices t). i_name ind \<noteq> name)"
  by (auto simp: list_ex_iff carries_def)

lemma relevantTensors_none:
  "relevantTensors name d = [] \<longleftrightarrow> \<not> list_ex (carries name) (tensors d)"
  by (simp only: relevantTensors_Nil not_carries_iff)

lemma addSummation_none:
  assumes "\<not> list_ex (carries name) (tensors d)"
  shows "addSummation inh name position d
     = Inl (Error (''addSummation error: no tensors with an index '' @ name), d)"
proof -
  from assms have "relevantTensors name d = []"
    by (simp add: relevantTensors_none)
  then show ?thesis
    by (simp add: addSummation_def)
qed

lemma renamed_not_carries:
  assumes "length (filter (\<lambda>ind. i_name ind = name) (indices t)) = 1"
  shows "\<not> carries name (renamed name k t)"
  unfolding carries_def renamed_def
  by (simp add: renameFirst_unique [OF assms] image_iff decimal_nonempty)

lemma dot_not_carries:
  "\<not> carries name ((emptyDot xy)\<lparr>indices := dotPushes inh name ss 0 []\<rparr>)"
proof -
  have "i_name ind \<noteq> name" if "ind \<in> set (dotPushes inh name ss 0 [])" for ind
    using dotPushes_names [OF that] by (auto simp: decimal_nonempty)
  then show ?thesis
    unfolding carries_def by (simp add: image_iff) metis
qed

lemma addSummation_many_fresh:
  assumes n: "3 \<le> length (relevantTensors name d)"
    and uniq: "\<forall>p \<in> set (relevantTensors name d).
                 length (filter (\<lambda>ind. i_name ind = name) (indices (tensors d ! p))) = 1"
  shows "\<exists>d'. addSummation inh name (Some xy) d = Inr d' \<and> \<not> list_ex (carries name) (tensors d')"
proof -
  let ?rel = "relevantTensors name d"
  let ?m = "length (tensors d)"
  from addSummation_many [OF n, where xy = xy and inh = inh] obtain ts'
    where run: "addSummation inh name (Some xy) d
            = Inr (d\<lparr>tensors := ts',
                    contractions := contractions d @ map (summed name ?m) (enumerate 0 ?rel)\<rparr>)"
      and len: "length ts' = Suc ?m"
      and keep: "\<forall>q < ?m. q \<notin> set ?rel \<longrightarrow> ts' ! q = tensors d ! q"
      and ren: "\<forall>j < length ?rel. ts' ! (?rel ! j) = renamed name j (tensors d ! (?rel ! j))"
      and dot: "ts' ! ?m = (emptyDot xy)\<lparr>indices := dotPushes inh name
                  (map (\<lambda>p. i_pos (firstNamed name (tensors d ! p))) ?rel) 0 []\<rparr>"
    by blast
  have each: "\<not> carries name (ts' ! q)" if "q < Suc ?m" for q
  proof (cases "q = ?m")
    case True
    then show ?thesis by (simp only: dot dot_not_carries not_False_eq_True)
  next
    case False
    with that have q: "q < ?m" by simp
    show ?thesis
    proof (cases "q \<in> set ?rel")
      case True
      then obtain j where j: "j < length ?rel" "?rel ! j = q"
        by (auto simp: in_set_conv_nth)
      from True uniq
      have "length (filter (\<lambda>ind. i_name ind = name) (indices (tensors d ! q))) = 1"
        by blast
      from renamed_not_carries [OF this, of j] have "\<not> carries name (renamed name j (tensors d ! q))" .
      moreover from ren j have "ts' ! q = renamed name j (tensors d ! q)" by auto
      ultimately show ?thesis by simp
    next
      case False
      with q have "\<not> hasIndex name (tensors d ! q)" by (simp add: relevantTensors_mem)
      moreover from keep q False have "ts' ! q = tensors d ! q" by blast
      ultimately show ?thesis by (simp add: hasIndex_carries)
    qed
  qed
  have "\<not> list_ex (carries name) ts'"
  proof
    assume "list_ex (carries name) ts'"
    then obtain t where "t \<in> set ts'" "carries name t" by (auto simp: list_ex_iff)
    then obtain q where "q < length ts'" "ts' ! q = t" by (auto simp: in_set_conv_nth)
    with each [of q] len \<open>carries name t\<close> show False by simp
  qed
  with run show ?thesis by simp
qed

subsection \<open>Decimal names and separators\<close>













lemma join_separated: "join sep ss = separated sep ss"
proof (induction sep ss rule: join.induct)
  case (1 sep)
  then show ?case by (simp add: separated_def)
next
  case (2 sep s)
  then show ?case by (simp add: separated_def)
next
  case (3 sep s v va)
  then show ?case by (simp add: separated_def)
qed

subsection \<open>The example of three tensors\<close>

lemma decimal_small: "decimal 0 = ''0''" "decimal 1 = ''1''" "decimal 2 = ''2''" "decimal 3 = ''3''"
  by code_simp+

lemma decimal_Suc:
  "decimal (Suc 0) = ''1''" "decimal (Suc (Suc 0)) = ''2''" "decimal (Suc (Suc (Suc 0))) = ''3''"
  using decimal_small by (simp_all add: numeral_2_eq_2 numeral_3_eq_3)

lemma relevant_threeK: "relevantTensors ''k'' threeK = [0, 1, 2]"
  by (simp add: relevantTensors_def hasIndex_def threeK_def example_defs)

lemma summation_threeK:
  "addSummation noInherited ''k'' (Some \<lparr>xy_x = Some 5, xy_y = Some 5\<rparr>) threeK = Inr threeKsummed"
proof -
  have "3 \<le> length (relevantTensors ''k'' threeK)"
    by (simp add: relevant_threeK)
  then have "addSummation noInherited ''k'' (Some \<lparr>xy_x = Some 5, xy_y = Some 5\<rparr>) threeK
      = summationLoop noInherited ''k'' (length (tensors threeK)) [0, 1, 2] 0
          (threeK\<lparr>tensors := tensors threeK @ [emptyDot \<lparr>xy_x = Some 5, xy_y = Some 5\<rparr>]\<rparr>)"
    by (simp add: addSummation_default relevant_threeK)
  also have "\<dots> = Inr threeKsummed"
    by (simp add: threeK_def threeKsummed_def summationStep_def Let_def
          addContraction_def tensorAt_def emptyDot_def decimal_small decimal_Suc example_defs
          numeral_2_eq_2 numeral_3_eq_3)
  finally show ?thesis .
qed

lemmas addTensor_defs = addTensor_def tensorPos_def lastTensor_def sideIndices_def
  createTensor_def new_def noOpts_def Let_def example_defs

lemma threeK_built:
  "andThen (andThen (addTensor ''A'' (Some Start) [''k''] [] [] [] noOpts new)
                    (addTensor ''B'' (Some RelRight) [''k''] [] [] [] noOpts))
           (addTensor ''C'' (Some RelDown) [] [] [''k''] [] noOpts)
     = Inr threeK"
proof -
  let ?d1 = "diagramOf [circleAt 0 0 ''A'' [shown ''k'' Left 0]] []"
  let ?d2 = "diagramOf [circleAt 0 0 ''A'' [shown ''k'' Left 0],
                        circleAt 1 0 ''B'' [shown ''k'' Left 0]] []"
  have 1: "addTensor ''A'' (Some Start) [''k''] [] [] [] noOpts (new :: unit Diagram) = Inr ?d1"
    by (simp add: addTensor_defs)
  have 2: "addTensor ''B'' (Some RelRight) [''k''] [] [] [] noOpts ?d1 = Inr ?d2"
    by (simp add: addTensor_defs numAdd_safe)
  have 3: "addTensor ''C'' (Some RelDown) [] [] [''k''] [] noOpts ?d2 = Inr threeK"
    by (simp add: addTensor_defs numAdd_safe threeK_def)
  show ?thesis
    unfolding andThen_def 1 sum.case 2 3 ..
qed

lemma relevant_oneIndex: "relevantTensors ''i'' (oneIndex x y side) = [0]"
  by (simp add: relevantTensors_def hasIndex_def oneIndex_def example_defs)

lemma newTensor_plain: "newTensor name \<lparr>xy_x = Some x, xy_y = Some y\<rparr> [] [] [] [] noOpts = circleAt x y name []"
  by (simp add: newTensor_def createTensor_def sideIndices_def noOpts_def example_defs)

subsection \<open>The dot beside one tensor\<close>

lemma dotBeside_safe:
  assumes b: "dotBeside side x y k = Some (x', y', sd)"
    and bx: "\<bar>x\<bar> + \<bar>k\<bar> < 2 ^ 53" and "by": "\<bar>y\<bar> + \<bar>k\<bar> < 2 ^ 53"
  shows "\<bar>x - 1\<bar> \<le> 2 ^ 53" "\<bar>x + 1\<bar> \<le> 2 ^ 53" "\<bar>x + k\<bar> \<le> 2 ^ 53"
        "\<bar>y - 1\<bar> \<le> 2 ^ 53" "\<bar>y + 1\<bar> \<le> 2 ^ 53" "\<bar>y + k\<bar> \<le> 2 ^ 53"
  using bx "by" by linarith+

lemma summationOne_placed:
  assumes p: "p < length (tensors d)"
    and f: "filter (\<lambda>index. i_name index = name) (indices (tensors d ! p)) = ind # others"
    and x: "t_x (tensors d ! p) = Some x" and y: "t_y (tensors d ! p) = Some y"
    and k: "order ind = Some k"
    and bx: "\<bar>x\<bar> + \<bar>k\<bar> < 2 ^ 53" and "by": "\<bar>y\<bar> + \<bar>k\<bar> < 2 ^ 53"
    and b: "dotBeside (i_pos ind) x y k = Some (x', y', sd)"
  shows "summationOne name p d
     = Inr (d\<lparr>tensors := tensors d @ [dotWith x' y' sd name],
             contractions := contractions d @
               [\<lparr>source = Some p, target = Some (length (tensors d)),
                 c_name = name, c_pos = Up\<rparr>]\<rparr>)"
proof -
  note safe = dotBeside_safe [OF b bx "by"]
  note sums = safe(2,3,5,6) [THEN numAdd_safe] safe(1,4) [THEN numSub_safe]
  show ?thesis
  proof (cases "i_pos ind")
    case Left
    with b have "x' = x - 1" "y' = y + k" "sd = Right" by (simp_all add: dotBeside_def)
    with Left p show ?thesis
      by (simp add: summationOne_def f x y k sums Let_def
            addTensor_Inr [OF tensorPos_At] newTensor_dot addContraction_refs)
  next
    case Right
    with b have "x' = x + 1" "y' = y + k" "sd = Left" by (simp_all add: dotBeside_def)
    with Right p show ?thesis
      by (simp add: summationOne_def f x y k sums Let_def
            addTensor_Inr [OF tensorPos_At] newTensor_dot addContraction_refs)
  next
    case Up
    with b have "x' = x + k" "y' = y - 1" "sd = Down" by (simp_all add: dotBeside_def)
    with Up p show ?thesis
      by (simp add: summationOne_def f x y k sums Let_def
            addTensor_Inr [OF tensorPos_At] newTensor_dot addContraction_refs)
  next
    case Down
    with b have "x' = x + k" "y' = y + 1" "sd = Up" by (simp_all add: dotBeside_def)
    with Down p show ?thesis
      by (simp add: summationOne_def f x y k sums Let_def
            addTensor_Inr [OF tensorPos_At] newTensor_dot addContraction_refs)
  next
    case (BadPos s)
    with b show ?thesis by (simp add: dotBeside_def)
  qed
qed

lemma summationOne_invalid:
  assumes f: "filter (\<lambda>index. i_name index = name) (indices (tensors d ! p)) = ind # others"
    and s: "i_pos ind = BadPos s"
  shows "summationOne name p d
     = Inl (Error (''Invalid position '' @ s @ '' for index '' @ name), d)"
  by (simp add: summationOne_def f s posText_def)

lemma relevant_single:
  assumes "relevantTensors name d = [p]"
  shows "p < length (tensors d)"
    and "\<exists>ind others. filter (\<lambda>index. i_name index = name) (indices (tensors d ! p)) = ind # others"
proof -
  from assms have "p \<in> set (relevantTensors name d)" by simp
  then show "p < length (tensors d)" and "\<exists>ind others.
      filter (\<lambda>index. i_name index = name) (indices (tensors d ! p)) = ind # others"
    by (auto simp: relevantTensors_mem hasIndex_filter neq_Nil_conv)
qed

lemma addSummation_single:
  "relevantTensors name d = [p] \<Longrightarrow> addSummation inh name position d = summationOne name p d"
  by (simp add: addSummation_def)


subsection \<open>Further examples built by the builder\<close>

lemma looseNames_eq: "looseNames d = indexNames d - contractedNames d"
  by (auto simp: looseNames_def indexNames_def contractedNames_def looseIndices_def)

lemma relevant_two:
  "relevantTensors ''k''
     (diagramOf [circleAt 0 0 ''A'' [shown ''k'' Left 0], circleAt 1 0 ''B'' [shown ''k'' Left 0]] [])
   = [0, 1]"
  by (simp add: relevantTensors_def hasIndex_def example_defs)

lemma relevant_four:
  "relevantTensors ''k''
     (diagramOf [circleAt 0 0 ''A'' [shown ''k'' Left 0], circleAt 1 0 ''B'' [shown ''k'' Left 0],
                 circleAt 1 1 ''C'' [shown ''k'' Left 0], circleAt 2 1 ''D'' [shown ''k'' Left 0]]
        [between 0 1 ''k''])
   = [0, 1, 2, 3]"
  by (simp add: relevantTensors_def hasIndex_def example_defs)

lemma twiceSummed_built:
  "andThen (andThen (andThen (andThen (andThen
      (addTensor ''A'' (Some Start) [''k''] [] [] [] noOpts new)
      (addTensor ''B'' (Some RelRight) [''k''] [] [] [] noOpts))
      (addSummation noInherited ''k'' None))
      (addTensor ''C'' (Some RelDown) [''k''] [] [] [] noOpts))
      (addTensor ''D'' (Some RelRight) [''k''] [] [] [] noOpts))
      (addSummation noInherited ''k'' (Some \<lparr>xy_x = Some 5, xy_y = Some 5\<rparr>))
   = Inr twiceSummed"
proof -
  let ?A = "circleAt 0 0 ''A'' [shown ''k'' Left 0]"
  let ?B = "circleAt 1 0 ''B'' [shown ''k'' Left 0]"
  let ?C = "circleAt 1 1 ''C'' [shown ''k'' Left 0]"
  let ?D = "circleAt 2 1 ''D'' [shown ''k'' Left 0]"
  let ?xy = "\<lparr>xy_x = Some 5, xy_y = Some 5\<rparr>"
  have 1: "addTensor ''A'' (Some Start) [''k''] [] [] [] noOpts (new :: unit Diagram)
             = Inr (diagramOf [?A] [])"
    by (simp add: addTensor_defs)
  have 2: "addTensor ''B'' (Some RelRight) [''k''] [] [] [] noOpts (diagramOf [?A] [])
             = Inr (diagramOf [?A, ?B] [])"
    by (simp add: addTensor_defs numAdd_safe)
  have 3: "addSummation noInherited ''k'' None (diagramOf [?A, ?B] [])
             = Inr (diagramOf [?A, ?B] [between 0 1 ''k''])"
    unfolding addSummation_def relevant_two
    by (simp add: addContraction_def tensorAt_def example_defs)
  have 4: "addTensor ''C'' (Some RelDown) [''k''] [] [] [] noOpts
             (diagramOf [?A, ?B] [between 0 1 ''k''])
             = Inr (diagramOf [?A, ?B, ?C] [between 0 1 ''k''])"
    by (simp add: addTensor_defs numAdd_safe)
  have 5: "addTensor ''D'' (Some RelRight) [''k''] [] [] [] noOpts
             (diagramOf [?A, ?B, ?C] [between 0 1 ''k''])
             = Inr (diagramOf [?A, ?B, ?C, ?D] [between 0 1 ''k''])"
    by (simp add: addTensor_defs numAdd_safe)
  let ?d5 = "diagramOf [?A, ?B, ?C, ?D] [between 0 1 ''k'']"
  have ge: "3 \<le> length (relevantTensors ''k'' ?d5)"
    unfolding relevant_four by simp
  have "addSummation noInherited ''k'' (Some ?xy) ?d5
      = summationLoop noInherited ''k'' (length (tensors ?d5)) [0, 1, 2, 3] 0
          (?d5\<lparr>tensors := tensors ?d5 @ [emptyDot ?xy]\<rparr>)"
    using addSummation_default [OF ge, where inh = noInherited and xy = ?xy]
    unfolding relevant_four .
  also have "\<dots> = Inr twiceSummed"
    by (simp add: twiceSummed_def summationStep_def Let_def
          addContraction_def tensorAt_def emptyDot_def decimal_small decimal_Suc example_defs
          eval_nat_numeral)
  finally have 6: "addSummation noInherited ''k'' (Some ?xy)
      (diagramOf [?A, ?B, ?C, ?D] [between 0 1 ''k'']) = Inr twiceSummed" .
  show ?thesis
    unfolding andThen_def 1 sum.case 2 3 4 5 6 ..
qed

lemma matmul_built:
  "andThen (andThen (addTensor ''A'' (Some Start) [''i''] [''j''] [] [] noOpts new)
                    (addTensor ''B'' (Some RelRight) [''j''] [''k''] [] [] noOpts))
           (addSummation noInherited ''j'' None)
     = Inr matmul"
proof -
  let ?A = "circleAt 0 0 ''A'' [shown ''i'' Left 0, shown ''j'' Right 0]"
  let ?B = "circleAt 1 0 ''B'' [shown ''j'' Left 0, shown ''k'' Right 0]"
  have 1: "addTensor ''A'' (Some Start) [''i''] [''j''] [] [] noOpts (new :: unit Diagram)
             = Inr (diagramOf [?A] [])"
    by (simp add: addTensor_defs)
  have 2: "addTensor ''B'' (Some RelRight) [''j''] [''k''] [] [] noOpts (diagramOf [?A] [])
             = Inr (diagramOf [?A, ?B] [])"
    by (simp add: addTensor_defs numAdd_safe)
  have r: "relevantTensors ''j'' (diagramOf [?A, ?B] []) = [0, 1]"
    by (simp add: relevantTensors_def hasIndex_def example_defs)
  have 3: "addSummation noInherited ''j'' None (diagramOf [?A, ?B] []) = Inr matmul"
    unfolding addSummation_def r
    by (simp add: addContraction_def tensorAt_def matmul_def example_defs)
  show ?thesis
    unfolding andThen_def 1 sum.case 2 3 ..
qed

subsection \<open>Layout hints are never recomputed\<close>

lemma keeps_append: "tensors (stateAfter r) = tensors d @ ts \<Longrightarrow> keepsRectHeights d r"
  by (simp add: keepsRectHeights_def)

lemma keeps_thrown [simp]: "keepsRectHeights d (Inl (e, d))"
  by (simp add: keepsRectHeights_def stateAfter_def)

lemma keeps_addTensor: "keepsRectHeights d (addTensor name position left right up down opts d)"
proof (cases "tensorPos d position")
  case (Inl e)
  then show ?thesis by (simp add: addTensor_Inl)
next
  case (Inr pos)
  show ?thesis
    unfolding addTensor_Inr [OF Inr] by (rule keeps_append [where ts = "[_]"]) (simp add: stateAfter_def)
qed

lemma keeps_addContraction: "keepsRectHeights d (addContraction i j name pos d)"
  by (rule keeps_append [where ts = "[]"]) (simp add: addContraction_def stateAfter_def)

lemma keeps_setSize: "keepsRectHeights d (setSize w h d)"
  by (rule keeps_append [where ts = "[]"]) (simp add: setSize_def stateAfter_def)

lemma keeps_andThen_contraction:
  assumes "r = Inl (e, d) \<or> (\<exists>t. r = Inr (d\<lparr>tensors := tensors d @ [t]\<rparr>))"
  shows "keepsRectHeights d
           (case r of Inl e \<Rightarrow> Inl e
            | Inr d1 \<Rightarrow> addContraction (int p) (int (length (tensors d1)) - 1) name None d1)"
  using assms
  by (auto simp: addContraction_def intro: keeps_append simp: stateAfter_def keepsRectHeights_def)

lemma addTensor_outcome:
  "addTensor name position left right up down opts d = Inl (TypeError, d)
   \<or> (\<exists>t. addTensor name position left right up down opts d = Inr (d\<lparr>tensors := tensors d @ [t]\<rparr>))"
proof (cases "tensorPos d position")
  case (Inl e)
  then have "e = TypeError"
    by (auto simp: tensorPos_def split: option.splits RelPos.splits)
  with Inl show ?thesis by (simp add: addTensor_Inl)
next
  case (Inr pos)
  from addTensor_Inr [OF this] show ?thesis by blast
qed

lemma keeps_summationOne: "keepsRectHeights d (summationOne name p d)"
proof (cases "filter (\<lambda>index. i_name index = name) (indices (tensors d ! p))")
  case Nil
  then show ?thesis by (simp add: summationOne_def)
next
  case (Cons ind others)
  show ?thesis
  proof (cases "i_pos ind")
    case (BadPos s)
    with Cons show ?thesis by (simp add: summationOne_def)
  next
    case Left
    with Cons show ?thesis
      by (simp add: summationOne_def Let_def) (rule keeps_andThen_contraction, use addTensor_outcome in blast)
  next
    case Right
    with Cons show ?thesis
      by (simp add: summationOne_def Let_def) (rule keeps_andThen_contraction, use addTensor_outcome in blast)
  next
    case Up
    with Cons show ?thesis
      by (simp add: summationOne_def Let_def) (rule keeps_andThen_contraction, use addTensor_outcome in blast)
  next
    case Down
    with Cons show ?thesis
      by (simp add: summationOne_def Let_def) (rule keeps_andThen_contraction, use addTensor_outcome in blast)
  qed
qed

lemma addSummation_no_position:
  "3 \<le> length (relevantTensors name d) \<Longrightarrow> addSummation inh name None d = Inl (TypeError, d)"
proof -
  assume "3 \<le> length (relevantTensors name d)"
  then obtain a b c rest where "relevantTensors name d = a # b # c # rest"
    using relevant_ge3 by blast
  then show ?thesis
    by (simp add: addSummation_def addTensor_def tensorPos_def)
qed

lemma rectHeight_renamed [simp]: "rectHeight (renamed name k t) = rectHeight t"
  by (simp add: renamed_def)

lemma keeps_many:
  assumes n: "3 \<le> length (relevantTensors name d)"
  shows "keepsRectHeights d (addSummation inh name (Some xy) d)"
proof -
  let ?rel = "relevantTensors name d"
  let ?m = "length (tensors d)"
  from addSummation_many [OF n, where xy = xy and inh = inh] obtain ts'
    where run: "addSummation inh name (Some xy) d
            = Inr (d\<lparr>tensors := ts',
                    contractions := contractions d @ map (summed name ?m) (enumerate 0 ?rel)\<rparr>)"
      and len: "length ts' = Suc ?m"
      and keep: "\<forall>q < ?m. q \<notin> set ?rel \<longrightarrow> ts' ! q = tensors d ! q"
      and ren: "\<forall>j < length ?rel. ts' ! (?rel ! j) = renamed name j (tensors d ! (?rel ! j))"
    by blast
  have each: "rectHeight (ts' ! q) = rectHeight (tensors d ! q)" if "q < ?m" for q
  proof (cases "q \<in> set ?rel")
    case True
    then obtain j where "j < length ?rel" "?rel ! j = q"
      by (auto simp: in_set_conv_nth)
    with ren have "ts' ! q = renamed name j (tensors d ! q)" by auto
    then show ?thesis by simp
  next
    case False
    with keep that show ?thesis by simp
  qed
  have "map rectHeight (take ?m ts') = map rectHeight (tensors d)"
    by (rule nth_equalityI) (simp_all add: len each)
  then show ?thesis
    by (simp add: keepsRectHeights_def run stateAfter_def)
qed

lemma keeps_addSummation: "keepsRectHeights d (addSummation inh name position d)"
proof (cases "relevantTensors name d")
  case Nil
  then show ?thesis by (simp add: addSummation_def)
next
  case (Cons a as)
  note one = this
  show ?thesis
  proof (cases as)
    case Nil
    with one show ?thesis by (simp add: addSummation_def keeps_summationOne)
  next
    case (Cons b bs)
    note two = this
    show ?thesis
    proof (cases bs)
      case Nil
      with one two show ?thesis by (simp add: addSummation_def keeps_addContraction)
    next
      case (Cons c cs)
      with one two have n: "3 \<le> length (relevantTensors name d)" by simp
      show ?thesis
      proof (cases position)
        case None
        with addSummation_no_position [OF n] show ?thesis by simp
      next
        case (Some xy)
        with keeps_many [OF n] show ?thesis by simp
      qed
    qed
  qed
qed

lemma dot_stale:
  assumes n: "3 \<le> length (relevantTensors name d)"
  shows "\<exists>d'. addSummation inh name (Some xy) d = Inr d'
     \<and> length (tensors d') = Suc (length (tensors d))
     \<and> t_shape (last (tensors d')) = Dot
     \<and> length (indices (last (tensors d'))) = length (relevantTensors name d)
     \<and> rectHeight (last (tensors d')) = 0"
proof -
  let ?rel = "relevantTensors name d"
  let ?m = "length (tensors d)"
  from addSummation_many [OF n, where xy = xy and inh = inh] obtain ts'
    where run: "addSummation inh name (Some xy) d
            = Inr (d\<lparr>tensors := ts',
                    contractions := contractions d @ map (summed name ?m) (enumerate 0 ?rel)\<rparr>)"
      and len: "length ts' = Suc ?m"
      and dot: "ts' ! ?m = (emptyDot xy)\<lparr>indices := dotPushes inh name
                  (map (\<lambda>p. i_pos (firstNamed name (tensors d ! p))) ?rel) 0 []\<rparr>"
    by blast
  from len have "ts' \<noteq> []" by auto
  with len have "last ts' = ts' ! ?m" by (simp add: last_conv_nth)
  with dot have "t_shape (last ts') = Dot" "rectHeight (last ts') = 0"
    "length (indices (last ts')) = length ?rel"
    by (simp_all add: emptyDot_def dotPushes_length)
  with run len show ?thesis by simp
qed

section \<open>Summation over a name that no tensor carries\<close>

text \<open>
  C7. If no index of any tensor is named \<open>name\<close>, \<^verbatim>\<open>addSummation(name)\<close> throws the error
  "addSummation error: no tensors with an index ..." (the specification's
  NoMatchingIndexError), and the diagram it leaves is the diagram it was given: tensors,
  contractions and lines are untouched.
\<close>

theorem addSummation_no_match:
  assumes "\<forall>t \<in> set (tensors d). \<forall>ind \<in> set (indices t). i_name ind \<noteq> name"
  shows "addSummation inh name position d =
           Inl (Error (''addSummation error: no tensors with an index '' @ name), d)"
proof -
  from assms have "relevantTensors name d = []" by (simp add: relevantTensors_Nil)
  then show ?thesis by (simp add: addSummation_def)
qed

theorem addSummation_no_match_witness:
  "relevantTensors ''j'' singleA = [] \<and>
   addSummation noInherited ''j'' None singleA =
     Inl (Error ''addSummation error: no tensors with an index j'', singleA)"
  using addSummation_no_match [of singleA "''j''" noInherited None]
  by (simp add: singleA_def relevantTensors_def hasIndex_def example_defs)

section \<open>Relative placement\<close>

text \<open>
  C6, as stated, has the new tensor at \<open>(x + 1, y)\<close> for every position of the last
  tensor. Numbers are doubles: with the last tensor at \<open>x = 2 ^ 53\<close> the sum \<open>x + 1\<close> is
  rounded back to \<open>2 ^ 53\<close>, and likewise for \<open>y + 1\<close>.
\<close>

theorem addTensor_relative_counterexample:
  "addTensor ''B'' (Some RelRight) [] [] [] [] noOpts (oneIndex (2 ^ 53) 0 Up)
     = Inr ((oneIndex (2 ^ 53) 0 Up)\<lparr>tensors := tensors (oneIndex (2 ^ 53) 0 Up)
              @ [circleAt (2 ^ 53) 0 ''B'' []]\<rparr>) \<and>
   t_x (circleAt (2 ^ 53) 0 ''B'' []) \<noteq> Some (2 ^ 53 + 1) \<and>
   addTensor ''B'' (Some RelDown) [] [] [] [] noOpts (oneIndex 0 (2 ^ 53) Up)
     = Inr ((oneIndex 0 (2 ^ 53) Up)\<lparr>tensors := tensors (oneIndex 0 (2 ^ 53) Up)
              @ [circleAt 0 (2 ^ 53) ''B'' []]\<rparr>) \<and>
   t_y (circleAt 0 (2 ^ 53) ''B'' []) \<noteq> Some (2 ^ 53 + 1)"
proof -
  have r: "tensorPos (oneIndex (2 ^ 53) 0 Up) (Some RelRight)
             = Inr \<lparr>xy_x = Some (2 ^ 53), xy_y = Some 0\<rparr>"
    using dbl_past_safe(1)
    by (simp add: tensorPos_def lastTensor_def oneIndex_def example_defs numAdd_def)
  have d: "tensorPos (oneIndex 0 (2 ^ 53) Up) (Some RelDown)
             = Inr \<lparr>xy_x = Some 0, xy_y = Some (2 ^ 53)\<rparr>"
    using dbl_past_safe(1)
    by (simp add: tensorPos_def lastTensor_def oneIndex_def example_defs numAdd_def)
  show ?thesis
    unfolding addTensor_Inr [OF r] addTensor_Inr [OF d] newTensor_plain
    by (simp add: circleAt_def)
qed

text \<open>
  C6, amended. On a non-empty diagram whose last tensor is at \<open>(x, y)\<close>: if \<open>x\<close> is an
  integer of magnitude below \<open>2 ^ 53\<close>, \<^verbatim>\<open>addTensor\<close> with \<^verbatim>\<open>"right"\<close> appends one tensor at
  \<open>(x + 1, y)\<close>; if \<open>y\<close> is such an integer, \<^verbatim>\<open>addTensor\<close> with \<^verbatim>\<open>"down"\<close> appends one at
  \<open>(x, y + 1)\<close>. On an empty diagram both calls throw before anything is pushed:
  \<^verbatim>\<open>this.lastTensor\<close> is \<^verbatim>\<open>undefined\<close> and reading its \<^verbatim>\<open>x\<close> is a TypeError (the
  specification's EmptyDiagramError).
\<close>

theorem addTensor_relative:
  "(tensors d \<noteq> [] \<longrightarrow>
      (\<forall>x. t_x (last (tensors d)) = Some x \<and> \<bar>x\<bar> < 2 ^ 53 \<longrightarrow>
         (\<exists>t. addTensor name (Some RelRight) left right up down opts d
                 = Inr (d\<lparr>tensors := tensors d @ [t]\<rparr>)
             \<and> t_x t = Some (x + 1) \<and> t_y t = t_y (last (tensors d)))) \<and>
      (\<forall>y. t_y (last (tensors d)) = Some y \<and> \<bar>y\<bar> < 2 ^ 53 \<longrightarrow>
         (\<exists>t. addTensor name (Some RelDown) left right up down opts d
                 = Inr (d\<lparr>tensors := tensors d @ [t]\<rparr>)
             \<and> t_x t = t_x (last (tensors d)) \<and> t_y t = Some (y + 1)))) \<and>
   (tensors d = [] \<longrightarrow>
      addTensor name (Some RelRight) left right up down opts d = Inl (TypeError, d) \<and>
      addTensor name (Some RelDown) left right up down opts d = Inl (TypeError, d))"
proof (intro conjI impI allI)
  fix x
  assume ne: "tensors d \<noteq> []" and x: "t_x (last (tensors d)) = Some x \<and> \<bar>x\<bar> < 2 ^ 53"
  let ?l = "last (tensors d)"
  from x have "\<bar>x + 1\<bar> \<le> 2 ^ 53" by linarith
  then have "numAdd (Some x) (Some 1) = Some (x + 1)" by (rule numAdd_safe)
  with x have r: "tensorPos d (Some RelRight) = Inr \<lparr>xy_x = Some (x + 1), xy_y = t_y ?l\<rparr>"
    using ne by (simp add: tensorPos_def lastTensor_def last_conv_nth)
  show "\<exists>t. addTensor name (Some RelRight) left right up down opts d
              = Inr (d\<lparr>tensors := tensors d @ [t]\<rparr>)
          \<and> t_x t = Some (x + 1) \<and> t_y t = t_y ?l"
    using addTensor_Inr [OF r] by (intro exI conjI) (assumption, simp_all)
next
  fix y
  assume ne: "tensors d \<noteq> []" and y: "t_y (last (tensors d)) = Some y \<and> \<bar>y\<bar> < 2 ^ 53"
  let ?l = "last (tensors d)"
  from y have "\<bar>y + 1\<bar> \<le> 2 ^ 53" by linarith
  then have "numAdd (Some y) (Some 1) = Some (y + 1)" by (rule numAdd_safe)
  with y have dn: "tensorPos d (Some RelDown) = Inr \<lparr>xy_x = t_x ?l, xy_y = Some (y + 1)\<rparr>"
    using ne by (simp add: tensorPos_def lastTensor_def last_conv_nth)
  show "\<exists>t. addTensor name (Some RelDown) left right up down opts d
              = Inr (d\<lparr>tensors := tensors d @ [t]\<rparr>)
          \<and> t_x t = t_x ?l \<and> t_y t = Some (y + 1)"
    using addTensor_Inr [OF dn] by (intro exI conjI) (assumption, simp_all)
next
  assume "tensors d = []"
  then show "addTensor name (Some RelRight) left right up down opts d = Inl (TypeError, d)"
    by (simp add: addTensor_Inl tensorPos_def lastTensor_def)
next
  assume "tensors d = []"
  then show "addTensor name (Some RelDown) left right up down opts d = Inl (TypeError, d)"
    by (simp add: addTensor_Inl tensorPos_def lastTensor_def)
qed

theorem addTensor_relative_witness:
  "tensors singleA \<noteq> [] \<and>
   (\<exists>t. addTensor ''B'' (Some RelRight) [] [''j''] [] [] noOpts singleA
           = Inr (singleA\<lparr>tensors := tensors singleA @ [t]\<rparr>) \<and> t_x t = Some 1 \<and> t_y t = Some 0) \<and>
   (\<exists>t. addTensor ''B'' (Some RelDown) [] [''j''] [] [] noOpts singleA
           = Inr (singleA\<lparr>tensors := tensors singleA @ [t]\<rparr>) \<and> t_x t = Some 0 \<and> t_y t = Some 1) \<and>
   tensors (new :: unit Diagram) = [] \<and>
   addTensor ''B'' (Some RelRight) [] [''j''] [] [] noOpts (new :: unit Diagram) = Inl (TypeError, new) \<and>
   addTensor ''B'' (Some RelDown) [] [''j''] [] [] noOpts (new :: unit Diagram) = Inl (TypeError, new)"
  using addTensor_relative [of singleA "''B''" "[]" "[''j'']" "[]" "[]" noOpts]
        addTensor_relative [of "new :: unit Diagram" "''B''" "[]" "[''j'']" "[]" "[]" noOpts]
  by (simp add: singleA_def new_def example_defs)

section \<open>Summation over three or more tensors without a position\<close>

text \<open>
  C5. When three or more tensors carry an index named \<open>name\<close>, \<^verbatim>\<open>addSummation(name)\<close>
  without a position throws: \<^verbatim>\<open>addTensor\<close> receives \<^verbatim>\<open>undefined\<close> and reading \<^verbatim>\<open>pos.x\<close> is
  a TypeError (the specification's MissingPositionError). Nothing has been mutated.
\<close>

theorem addSummation_missing_position:
  assumes "3 \<le> length (relevantTensors name d)"
  shows "addSummation inh name None d = Inl (TypeError, d)"
proof -
  from assms obtain a b c rest where "relevantTensors name d = a # b # c # rest"
    using relevant_ge3 by blast
  then show ?thesis
    by (simp add: addSummation_def addTensor_def tensorPos_def)
qed

theorem addSummation_missing_position_witness:
  "length (relevantTensors ''k'' threeK) = 3 \<and>
   addSummation noInherited ''k'' None threeK = Inl (TypeError, threeK)"
  using addSummation_missing_position [of "''k''" threeK noInherited]
  by (simp add: relevant_threeK)

section \<open>Summation over the index of one tensor\<close>

text \<open>
  C3, as stated, places the dot at \<open>(x - 1, y + order)\<close> for every tensor with a left
  index. Numbers are doubles: for the tensor at \<open>(- 2 ^ 53, 2 ^ 53)\<close> with its index \<open>i\<close>
  of order 1 on the left, both sums are rounded and the dot lands on the tensor's own
  coordinates.
\<close>

theorem addSummation_one_counterexample:
  "addSummation noInherited ''i'' None (oneIndex (- (2 ^ 53)) (2 ^ 53) Left)
     = Inr ((oneIndex (- (2 ^ 53)) (2 ^ 53) Left)
              \<lparr>tensors := tensors (oneIndex (- (2 ^ 53)) (2 ^ 53) Left)
                 @ [dotWith (- (2 ^ 53)) (2 ^ 53) Right ''i''],
               contractions := [between 0 1 ''i'']\<rparr>) \<and>
   dotBeside Left (- (2 ^ 53)) (2 ^ 53) 1 = Some (- (2 ^ 53) - 1, 2 ^ 53 + 1, Right) \<and>
   dotWith (- (2 ^ 53)) (2 ^ 53) Right ''i'' \<noteq> dotWith (- (2 ^ 53) - 1) (2 ^ 53 + 1) Right ''i''"
proof -
  have "addSummation noInherited ''i'' None (oneIndex (- (2 ^ 53)) (2 ^ 53) Left)
          = summationOne ''i'' 0 (oneIndex (- (2 ^ 53)) (2 ^ 53) Left)"
    by (rule addSummation_single) (rule relevant_oneIndex)
  also have "\<dots> = Inr ((oneIndex (- (2 ^ 53)) (2 ^ 53) Left)
              \<lparr>tensors := tensors (oneIndex (- (2 ^ 53)) (2 ^ 53) Left)
                 @ [dotWith (- (2 ^ 53)) (2 ^ 53) Right ''i''],
               contractions := [between 0 1 ''i'']\<rparr>)"
    using dbl_past_safe
    by (simp add: summationOne_def oneIndex_def example_defs numAdd_def numSub_def
          addTensor_Inr [OF tensorPos_At] newTensor_dot addContraction_def tensorAt_def)
  finally show ?thesis
    by (simp add: dotBeside_def dotWith_def)
qed

text \<open>
  C3, amended. When exactly one tensor carries an index named \<open>name\<close>,
  \<^verbatim>\<open>addSummation(name)\<close> reads the first such index of that tensor. Let the tensor be at
  integers \<open>(x, y)\<close> and the index have the integer order \<open>k\<close>, with \<open>|x| + |k|\<close> and
  \<open>|y| + |k|\<close> below \<open>2 ^ 53\<close>. For an index on the left the call appends one tensor of shape
  dot with hidden label at \<open>(x - 1, y + k)\<close> carrying a right index \<open>name\<close>; on the right, a
  dot at \<open>(x + 1, y + k)\<close> with a left index; up, a dot at \<open>(x + k, y - 1)\<close> with a down
  index; down, a dot at \<open>(x + k, y + 1)\<close> with an up index. It then records exactly one
  contraction, from the tensor to the new dot, under \<open>name\<close>. For a side outside the four
  (whatever the coordinates) it throws "Invalid position ... for index ..." (the
  specification's InvalidIndexPositionError) and leaves the diagram as it was.
\<close>

theorem addSummation_one:
  assumes "relevantTensors name d = [p]"
  shows "\<exists>ind others.
     filter (\<lambda>index. i_name index = name) (indices (tensors d ! p)) = ind # others \<and>
     (\<forall>s. i_pos ind = BadPos s \<longrightarrow>
        addSummation inh name position d
          = Inl (Error (''Invalid position '' @ s @ '' for index '' @ name), d)) \<and>
     (\<forall>x y k x' y' side.
        t_x (tensors d ! p) = Some x \<and> t_y (tensors d ! p) = Some y \<and> order ind = Some k \<and>
        \<bar>x\<bar> + \<bar>k\<bar> < 2 ^ 53 \<and> \<bar>y\<bar> + \<bar>k\<bar> < 2 ^ 53 \<and>
        dotBeside (i_pos ind) x y k = Some (x', y', side) \<longrightarrow>
        addSummation inh name position d
          = Inr (d\<lparr>tensors := tensors d @ [dotWith x' y' side name],
                  contractions := contractions d @
                    [\<lparr>source = Some p, target = Some (length (tensors d)),
                      c_name = name, c_pos = Up\<rparr>]\<rparr>))"
proof -
  from relevant_single [OF assms] obtain ind others
    where p: "p < length (tensors d)"
      and f: "filter (\<lambda>index. i_name index = name) (indices (tensors d ! p)) = ind # others"
    by blast
  note one = addSummation_single [OF assms]
  have bad: "addSummation inh name position d
          = Inl (Error (''Invalid position '' @ s @ '' for index '' @ name), d)"
    if "i_pos ind = BadPos s" for s
    unfolding one by (rule summationOne_invalid [OF f that])
  have placed: "addSummation inh name position d
          = Inr (d\<lparr>tensors := tensors d @ [dotWith x' y' side name],
                  contractions := contractions d @
                    [\<lparr>source = Some p, target = Some (length (tensors d)),
                      c_name = name, c_pos = Up\<rparr>]\<rparr>)"
    if "t_x (tensors d ! p) = Some x" "t_y (tensors d ! p) = Some y" "order ind = Some k"
        "\<bar>x\<bar> + \<bar>k\<bar> < 2 ^ 53" "\<bar>y\<bar> + \<bar>k\<bar> < 2 ^ 53"
        "dotBeside (i_pos ind) x y k = Some (x', y', side)" for x y k x' y' side
    unfolding one by (rule summationOne_placed [OF p f that])
  from f bad placed show ?thesis by blast
qed

theorem addSummation_one_witness:
  "addSummation noInherited ''i'' None (oneIndex 3 4 Left)
     = Inr ((oneIndex 3 4 Left)\<lparr>tensors := tensors (oneIndex 3 4 Left)
                @ [dotWith 2 5 Right ''i''], contractions := [between 0 1 ''i'']\<rparr>) \<and>
   addSummation noInherited ''i'' None (oneIndex 3 4 Right)
     = Inr ((oneIndex 3 4 Right)\<lparr>tensors := tensors (oneIndex 3 4 Right)
                @ [dotWith 4 5 Left ''i''], contractions := [between 0 1 ''i'']\<rparr>) \<and>
   addSummation noInherited ''i'' None (oneIndex 3 4 Up)
     = Inr ((oneIndex 3 4 Up)\<lparr>tensors := tensors (oneIndex 3 4 Up)
                @ [dotWith 4 3 Down ''i''], contractions := [between 0 1 ''i'']\<rparr>) \<and>
   addSummation noInherited ''i'' None (oneIndex 3 4 Down)
     = Inr ((oneIndex 3 4 Down)\<lparr>tensors := tensors (oneIndex 3 4 Down)
                @ [dotWith 4 5 Up ''i''], contractions := [between 0 1 ''i'']\<rparr>) \<and>
   addSummation noInherited ''i'' None (oneIndex 3 4 (BadPos ''diagonal''))
     = Inl (Error ''Invalid position diagonal for index i'', oneIndex 3 4 (BadPos ''diagonal''))"
proof -
  have at: "\<exists>more. filter (\<lambda>index. i_name index = ''i'') (indices (tensors (oneIndex 3 4 side) ! 0))
              = ind # more \<Longrightarrow> ind = shown ''i'' side 1" for side ind
    by (auto simp: oneIndex_def example_defs)
  have placed: "addSummation noInherited ''i'' None (oneIndex 3 4 side)
     = Inr ((oneIndex 3 4 side)\<lparr>tensors := tensors (oneIndex 3 4 side)
                @ [dotWith x' y' sd ''i''], contractions := [between 0 1 ''i'']\<rparr>)"
    if "dotBeside side 3 4 1 = Some (x', y', sd)" for side x' y' sd
  proof -
    from addSummation_one [OF relevant_oneIndex [of 3 4 side], where inh = noInherited
        and position = None]
    obtain ind others
      where f: "filter (\<lambda>index. i_name index = ''i'') (indices (tensors (oneIndex 3 4 side) ! 0))
                  = ind # others"
        and pl: "\<forall>x y k x' y' sd.
            t_x (tensors (oneIndex 3 4 side) ! 0) = Some x \<and>
            t_y (tensors (oneIndex 3 4 side) ! 0) = Some y \<and> order ind = Some k \<and>
            \<bar>x\<bar> + \<bar>k\<bar> < 2 ^ 53 \<and> \<bar>y\<bar> + \<bar>k\<bar> < 2 ^ 53 \<and>
            dotBeside (i_pos ind) x y k = Some (x', y', sd) \<longrightarrow>
            addSummation noInherited ''i'' None (oneIndex 3 4 side)
              = Inr ((oneIndex 3 4 side)\<lparr>tensors := tensors (oneIndex 3 4 side)
                        @ [dotWith x' y' sd ''i''],
                      contractions := contractions (oneIndex 3 4 side) @
                        [\<lparr>source = Some 0, target = Some (length (tensors (oneIndex 3 4 side))),
                          c_name = ''i'', c_pos = Up\<rparr>]\<rparr>)"
      by blast
    from f have ind: "ind = shown ''i'' side 1" by (intro at) blast
    have "t_x (tensors (oneIndex 3 4 side) ! 0) = Some 3 \<and>
          t_y (tensors (oneIndex 3 4 side) ! 0) = Some 4 \<and> order ind = Some 1 \<and>
          \<bar>3\<bar> + \<bar>1\<bar> < (2 ^ 53 :: int) \<and> \<bar>4\<bar> + \<bar>1\<bar> < (2 ^ 53 :: int) \<and>
          dotBeside (i_pos ind) 3 4 1 = Some (x', y', sd)"
      using that by (simp add: ind oneIndex_def example_defs)
    with pl have "addSummation noInherited ''i'' None (oneIndex 3 4 side)
              = Inr ((oneIndex 3 4 side)\<lparr>tensors := tensors (oneIndex 3 4 side)
                        @ [dotWith x' y' sd ''i''],
                      contractions := contractions (oneIndex 3 4 side) @
                        [\<lparr>source = Some 0, target = Some (length (tensors (oneIndex 3 4 side))),
                          c_name = ''i'', c_pos = Up\<rparr>]\<rparr>)"
      by blast
    then show ?thesis
      by (simp add: oneIndex_def example_defs)
  qed
  have bad: "addSummation noInherited ''i'' None (oneIndex 3 4 (BadPos ''diagonal''))
     = Inl (Error ''Invalid position diagonal for index i'', oneIndex 3 4 (BadPos ''diagonal''))"
  proof -
    from addSummation_one [OF relevant_oneIndex [of 3 4 "BadPos ''diagonal''"],
        where inh = noInherited and position = None]
    obtain ind others
      where f: "filter (\<lambda>index. i_name index = ''i'')
                  (indices (tensors (oneIndex 3 4 (BadPos ''diagonal'')) ! 0)) = ind # others"
        and b: "\<forall>s. i_pos ind = BadPos s \<longrightarrow>
            addSummation noInherited ''i'' None (oneIndex 3 4 (BadPos ''diagonal''))
              = Inl (Error (''Invalid position '' @ s @ '' for index '' @ ''i''),
                     oneIndex 3 4 (BadPos ''diagonal''))"
      by blast
    from f have "ind = shown ''i'' (BadPos ''diagonal'') 1" by (intro at) blast
    then have "i_pos ind = BadPos ''diagonal''" by (simp add: shown_def)
    with b show ?thesis by simp
  qed
  show ?thesis
    by (intro conjI placed bad) (simp_all add: dotBeside_def)
qed

section \<open>Summation over an index of three or more tensors\<close>



text \<open>
  C10. Under the same conditions (three or more tensors carry an index named \<open>name\<close>,
  each exactly one), \<^verbatim>\<open>addSummation(name, position)\<close> returns a diagram in which no index
  of any tensor, the new dot included, is named \<open>name\<close>; so \<^verbatim>\<open>addSummation(name)\<close> called
  next on it throws the error of a name that no tensor carries.
\<close>

theorem addSummation_twice:
  assumes "3 \<le> length (relevantTensors name d)"
    and "\<forall>p \<in> set (relevantTensors name d).
           length (filter (\<lambda>ind. i_name ind = name) (indices (tensors d ! p))) = 1"
  shows "\<exists>d'. addSummation inh name (Some xy) d = Inr d'
     \<and> (\<forall>t \<in> set (tensors d'). \<forall>ind \<in> set (indices t). i_name ind \<noteq> name)
     \<and> addSummation inh name position d'
         = Inl (Error (''addSummation error: no tensors with an index '' @ name), d')
     \<and> andThen (addSummation inh name (Some xy) d) (addSummation inh name position)
         = Inl (Error (''addSummation error: no tensors with an index '' @ name), d')"
proof -
  from addSummation_many_fresh [OF assms, where xy = xy and inh = inh] obtain d'
    where run: "addSummation inh name (Some xy) d = Inr d'"
      and none: "\<not> list_ex (carries name) (tensors d')"
    by blast
  from none have "\<forall>t \<in> set (tensors d'). \<forall>ind \<in> set (indices t). i_name ind \<noteq> name"
    by (simp only: not_carries_iff)
  with run addSummation_none [OF none, where position = position and inh = inh] show ?thesis
    by (simp add: andThen_def)
qed

theorem addSummation_twice_witness:
  "addSummation noInherited ''k'' (Some \<lparr>xy_x = Some 5, xy_y = Some 5\<rparr>) threeK = Inr threeKsummed \<and>
   \<not> list_ex (carries ''k'') (tensors threeKsummed) \<and>
   andThen (addSummation noInherited ''k'' (Some \<lparr>xy_x = Some 5, xy_y = Some 5\<rparr>) threeK) (addSummation noInherited ''k'' None)
     = Inl (Error ''addSummation error: no tensors with an index k'', threeKsummed)"
proof -
  have u: "\<forall>p \<in> set (relevantTensors ''k'' threeK).
             length (filter (\<lambda>ind. i_name ind = ''k'') (indices (tensors threeK ! p))) = 1"
    unfolding relevant_threeK by (simp add: threeK_def example_defs)
  have n: "3 \<le> length (relevantTensors ''k'' threeK)"
    by (simp add: relevant_threeK)
  from addSummation_twice [OF n u, where xy = "\<lparr>xy_x = Some 5, xy_y = Some 5\<rparr>"
      and position = None and inh = noInherited] obtain d'
    where "addSummation noInherited ''k'' (Some \<lparr>xy_x = Some 5, xy_y = Some 5\<rparr>) threeK = Inr d'"
      and none: "\<forall>t \<in> set (tensors d'). \<forall>ind \<in> set (indices t). i_name ind \<noteq> ''k''"
      and twice: "andThen (addSummation noInherited ''k'' (Some \<lparr>xy_x = Some 5, xy_y = Some 5\<rparr>) threeK)
                     (addSummation noInherited ''k'' None)
         = Inl (Error (''addSummation error: no tensors with an index '' @ ''k''), d')"
    by blast
  then have d': "d' = threeKsummed"
    by (simp add: summation_threeK)
  from none have "\<not> list_ex (carries ''k'') (tensors threeKsummed)"
    unfolding d' by (simp only: not_carries_iff)
  with twice show ?thesis
    by (simp add: d' summation_threeK)
qed

section \<open>Contractions between tensor positions\<close>

text \<open>
  C4, as stated: \<^verbatim>\<open>addContraction(i, j, name, pos)\<close> with \<open>i\<close> or \<open>j\<close> out of range fails.
  It does not: on the one-tensor diagram, \<^verbatim>\<open>addContraction(5, -1, "j")\<close> returns and has
  recorded a contraction whose source and target are both \<^verbatim>\<open>undefined\<close>.
\<close>

theorem addContraction_out_of_range_counterexample:
  "\<not> (\<exists>e d'. addContraction 5 (-1) ''j'' None singleA = Inl (e, d')) \<and>
   addContraction 5 (-1) ''j'' None singleA
     = Inr (singleA\<lparr>contractions := [\<lparr>source = None, target = None, c_name = ''j'', c_pos = Up\<rparr>]\<rparr>)"
  by (simp add: addContraction_def tensorAt_def singleA_def example_defs)

text \<open>
  C4, amended: \<^verbatim>\<open>addContraction\<close> never fails. It appends exactly one contraction, whose
  source (target) is the tensor at position \<open>i\<close> (\<open>j\<close>) when that position is in range
  and \<^verbatim>\<open>undefined\<close> otherwise, under the given name and at the given side, \<^verbatim>\<open>"up"\<close> by
  default.
\<close>

theorem addContraction_total:
  "addContraction i j name pos d
     = Inr (d\<lparr>contractions := contractions d @
              [\<lparr>source = (if 0 \<le> i \<and> i < int (length (tensors d)) then Some (nat i) else None),
                target = (if 0 \<le> j \<and> j < int (length (tensors d)) then Some (nat j) else None),
                c_name = name, c_pos = (case pos of None \<Rightarrow> Up | Some p \<Rightarrow> p)\<rparr>]\<rparr>)"
  by (cases pos) (simp_all add: addContraction_def tensorAt_def)

theorem addContraction_total_witness:
  "addContraction 0 1 ''j'' (Some Down) singleA
     = Inr (singleA\<lparr>contractions := [\<lparr>source = Some 0, target = None, c_name = ''j'', c_pos = Down\<rparr>]\<rparr>)"
  using addContraction_total [of 0 1 "''j''" "Some Down" singleA]
  by (simp add: singleA_def example_defs)

section \<open>Loose indices\<close>

text \<open>
  C8, as stated, includes: the loose names together with the contraction names are
  exactly the index names on the tensors. Built by the builder alone, with every
  contraction recorded between two tensors that carried its name:
  \<^verbatim>\<open>new().addTensor("A", "start", ["k"]).addTensor("B", "right", ["k"]).addSummation("k")
         .addTensor("C", "down", ["k"]).addTensor("D", "right", ["k"])
         .addSummation("k", {x: 5, y: 5})\<close>
  keeps the contraction \<open>k\<close> of the first summation while the second renames every index
  \<open>k\<close>; the union then holds \<open>k\<close>, which no tensor carries.
\<close>

theorem looseIndices_union_counterexample:
  "andThen (andThen (andThen (andThen (andThen
      (addTensor ''A'' (Some Start) [''k''] [] [] [] noOpts new)
      (addTensor ''B'' (Some RelRight) [''k''] [] [] [] noOpts))
      (addSummation noInherited ''k'' None))
      (addTensor ''C'' (Some RelDown) [''k''] [] [] [] noOpts))
      (addTensor ''D'' (Some RelRight) [''k''] [] [] [] noOpts))
      (addSummation noInherited ''k'' (Some \<lparr>xy_x = Some 5, xy_y = Some 5\<rparr>))
     = Inr twiceSummed \<and>
   ''k'' \<in> contractedNames twiceSummed \<and> ''k'' \<notin> indexNames twiceSummed \<and>
   looseNames twiceSummed \<union> contractedNames twiceSummed \<noteq> indexNames twiceSummed"
proof -
  have in_c: "''k'' \<in> contractedNames twiceSummed"
    by (simp add: contractedNames_def twiceSummed_def example_defs)
  have not_i: "''k'' \<notin> indexNames twiceSummed"
    by (simp add: indexNames_def twiceSummed_def example_defs emptyDot_def)
  from in_c not_i have "looseNames twiceSummed \<union> contractedNames twiceSummed
      \<noteq> indexNames twiceSummed"
    by blast
  with twiceSummed_built in_c not_i show ?thesis by simp
qed

text \<open>
  C8, amended: \<^verbatim>\<open>looseIndices()\<close> returns, per tensor in diagram order and in each
  tensor's index order, exactly the indices whose name is in no contraction; no returned
  name is a contraction name; the loose names together with the contraction names are
  the index names together with the contraction names, and are exactly the index names
  whenever every contraction name is the name of some index.
\<close>

theorem looseIndices_correct:
  "length (looseIndices d) = length (tensors d) \<and>
   (\<forall>k < length (tensors d).
      looseIndices d ! k
        = filter (\<lambda>index. i_name index \<notin> contractedNames d) (indices (tensors d ! k))) \<and>
   looseNames d \<inter> contractedNames d = {} \<and>
   looseNames d \<union> contractedNames d = indexNames d \<union> contractedNames d \<and>
   (contractedNames d \<subseteq> indexNames d \<longrightarrow>
      looseNames d \<union> contractedNames d = indexNames d)"
proof (intro conjI allI impI)
  show "length (looseIndices d) = length (tensors d)"
    by (simp add: looseIndices_def)
  show "looseIndices d ! k
        = filter (\<lambda>index. i_name index \<notin> contractedNames d) (indices (tensors d ! k))"
    if "k < length (tensors d)" for k
    using that by (simp add: looseIndices_def contractedNames_def)
  show "looseNames d \<inter> contractedNames d = {}"
    by (auto simp: looseNames_eq)
  show "looseNames d \<union> contractedNames d = indexNames d \<union> contractedNames d"
    by (auto simp: looseNames_eq)
  show "looseNames d \<union> contractedNames d = indexNames d"
    if "contractedNames d \<subseteq> indexNames d"
    using that by (auto simp: looseNames_eq)
qed

theorem looseIndices_correct_witness:
  "looseIndices matmul = [[shown ''i'' Left 0], [shown ''k'' Right 0]] \<and>
   length (looseIndices matmul) = length (tensors matmul) \<and>
   looseNames matmul \<inter> contractedNames matmul = {} \<and>
   contractedNames matmul = {''j''} \<and> indexNames matmul = {''i'', ''j'', ''k''} \<and>
   looseNames matmul \<union> contractedNames matmul = indexNames matmul"
proof -
  have c: "contractedNames matmul = {''j''}"
    by (simp add: contractedNames_def matmul_def example_defs)
  have i: "indexNames matmul = {''i'', ''j'', ''k''}"
    by (auto simp: indexNames_def matmul_def example_defs)
  have l: "looseIndices matmul = [[shown ''i'' Left 0], [shown ''k'' Right 0]]"
    by (simp add: looseIndices_def matmul_def example_defs)
  from c i have sub: "contractedNames matmul \<subseteq> indexNames matmul" by simp
  from looseIndices_correct [of matmul] sub
  have len: "length (looseIndices matmul) = length (tensors matmul)"
    and inter: "looseNames matmul \<inter> contractedNames matmul = {}"
    and u: "looseNames matmul \<union> contractedNames matmul = indexNames matmul"
    by blast+
  show ?thesis
    by (intro conjI l len inter c i u)
qed

section \<open>The einsum formula\<close>

lemma separated_Nil: "separated [] ss = concat ss"
proof (cases ss)
  case Nil
  then show ?thesis by (simp add: separated_def)
next
  case (Cons s rest)
  have "map ((@) []) rest = rest" by (induction rest) simp_all
  with Cons show ?thesis by (simp add: separated_def)
qed

lemma fold_pushFree:
  "fold (pushFree cs) ys acc
     = acc @ map (\<lambda>k. ys ! k)
         (filter (\<lambda>k. ys ! k \<notin> set cs \<and> ys ! k \<notin> set acc \<and> ys ! k \<notin> set (take k ys))
            [0..<length ys])"
proof (induction ys arbitrary: acc)
  case Nil
  then show ?case by simp
next
  case (Cons y ys)
  have upt: "[0..<length (y # ys)] = 0 # map Suc [0..<length ys]"
    by (simp add: upt_conv_Cons map_Suc_upt del: upt_Suc)
  show ?case
    unfolding upt fold_simps Cons.IH
    by (auto simp: pushFree_def filter_map comp_def intro!: filter_cong arg_cong [where f = "map _"])
qed

lemma indicesFree_spec: "indicesFree d = freeNames d"
  by (simp add: indicesFree_def freeNames_def flatNames_def [symmetric] contractedNames_def
        fold_pushFree Let_def)

lemma distinct_fold_pushFree:
  "distinct acc \<Longrightarrow> distinct (fold (pushFree cs) ys acc)"
  by (induction ys arbitrary: acc) (simp_all add: pushFree_def)

lemma set_fold_pushFree:
  "set (fold (pushFree cs) ys acc) = set acc \<union> (set ys - set cs)"
  by (induction ys arbitrary: acc) (auto simp: pushFree_def)

lemma toFormulaEinsum_singleA:
  "toFormulaEinsum singleA = ''einsum('' @ [CHR 0x27] @ ''i->i'' @ [CHR 0x27] @ '', A)''"
  by (simp add: toFormulaEinsum_def indicesFree_def pushFree_def singleA_def example_defs)

lemma toFormulaEinsum_matmul:
  "toFormulaEinsum matmul = ''einsum('' @ [CHR 0x27] @ ''ij,jk->ik'' @ [CHR 0x27] @ '', A, B)''"
  by (simp add: toFormulaEinsum_def indicesFree_def pushFree_def matmul_def example_defs)

text \<open>
  C2. \<^verbatim>\<open>toFormulaEinsum()\<close> is the string
  \<^verbatim>\<open>einsum('<names per tensor>-><free names>', <tensor names>)\<close>: the index names of each
  tensor concatenated, with a comma between tensors; the free names concatenated; the
  tensor names with a comma and a space between them. The free names are, in
  first-encounter order over all indices of all tensors, the names that no contraction
  carries, each once. One tensor \<open>A\<close> with a left index \<open>i\<close> gives \<^verbatim>\<open>einsum('i->i', A)\<close>; the
  product of \<open>A\<close> (indices \<open>i\<close>, \<open>j\<close>) and \<open>B\<close> (indices \<open>j\<close>, \<open>k\<close>) summed over \<open>j\<close> gives
  \<^verbatim>\<open>einsum('ij,jk->ik', A, B)\<close>.
\<close>

theorem toFormulaEinsum_spec:
  "toFormulaEinsum d = einsumSpec d \<and>
   distinct (freeNames d) \<and>
   set (freeNames d) = indexNames d - contractedNames d \<and>
   toFormulaEinsum singleA = ''einsum('' @ [CHR 0x27] @ ''i->i'' @ [CHR 0x27] @ '', A)'' \<and>
   toFormulaEinsum matmul = ''einsum('' @ [CHR 0x27] @ ''ij,jk->ik'' @ [CHR 0x27] @ '', A, B)''"
proof (intro conjI)
  show "toFormulaEinsum d = einsumSpec d"
    by (simp add: toFormulaEinsum_def einsumSpec_def indicesFree_spec join_separated
          separated_Nil comp_def)
  show "distinct (freeNames d)"
    unfolding indicesFree_spec [symmetric] indicesFree_def Let_def
    by (rule distinct_fold_pushFree) simp
  show "set (freeNames d) = indexNames d - contractedNames d"
    unfolding indicesFree_spec [symmetric] indicesFree_def Let_def set_fold_pushFree
    by (simp add: indexNames_def contractedNames_def map_concat comp_def)
  show "toFormulaEinsum singleA = ''einsum('' @ [CHR 0x27] @ ''i->i'' @ [CHR 0x27] @ '', A)''"
    by (rule toFormulaEinsum_singleA)
  show "toFormulaEinsum matmul
      = ''einsum('' @ [CHR 0x27] @ ''ij,jk->ik'' @ [CHR 0x27] @ '', A, B)''"
    by (rule toFormulaEinsum_matmul)
qed

theorem toFormulaEinsum_spec_witness:
  "toFormulaEinsum matmul = einsumSpec matmul \<and>
   flatNames matmul = [''i'', ''j'', ''j'', ''k''] \<and>
   freeNames matmul = [''i'', ''k''] \<and>
   einsumSpec matmul = ''einsum('' @ [CHR 0x27] @ ''ij,jk->ik'' @ [CHR 0x27] @ '', A, B)''"
proof -
  have fl: "flatNames matmul = [''i'', ''j'', ''j'', ''k'']"
    by (simp add: flatNames_def matmul_def example_defs)
  have c: "contractedNames matmul = {''j''}"
    by (simp add: contractedNames_def matmul_def example_defs)
  have fr: "freeNames matmul = [''i'', ''k'']"
    unfolding freeNames_def fl c by (simp add: upt_rec numeral_nat)
  from toFormulaEinsum_spec [of matmul]
  have eq: "toFormulaEinsum matmul = einsumSpec matmul"
    and ex: "toFormulaEinsum matmul
      = ''einsum('' @ [CHR 0x27] @ ''ij,jk->ik'' @ [CHR 0x27] @ '', A, B)''"
    by blast+
  from eq ex have "einsumSpec matmul
      = ''einsum('' @ [CHR 0x27] @ ''ij,jk->ik'' @ [CHR 0x27] @ '', A, B)''"
    by simp
  with eq fl fr show ?thesis by blast
qed

section \<open>The layout hint of a tensor\<close>

text \<open>
  C9. The \<^verbatim>\<open>rectHeight\<close> of a tensor is the larger of the numbers of its right and of
  its left indices, computed when the tensor is created: by \<^verbatim>\<open>createTensor\<close> from the
  indices it is given, hence for the tensor \<^verbatim>\<open>addTensor\<close> appends. No operation
  recomputes it: after \<^verbatim>\<open>addTensor\<close>, \<^verbatim>\<open>addContraction\<close>, \<^verbatim>\<open>addSummation\<close> or \<^verbatim>\<open>setSize\<close>,
  returned or thrown, every tensor that was there has the \<^verbatim>\<open>rectHeight\<close> it had. In
  particular, when three or more tensors carry the name, \<^verbatim>\<open>addSummation(name, position)\<close>
  returns with a dot as last tensor that has one index for each of them and still the
  \<^verbatim>\<open>rectHeight\<close> 0 of its creation.
\<close>

theorem rectHeight_at_creation:
  "rectHeight (createTensor x y tname inds shp showLab labP sz)
     = max (onSide Right (case inds of None \<Rightarrow> [] | Some given \<Rightarrow> given))
           (onSide Left (case inds of None \<Rightarrow> [] | Some given \<Rightarrow> given)) \<and>
   (\<forall>d'. addTensor tname position left right up down opts d = Inr d' \<longrightarrow>
      tensors d' = tensors d @ [last (tensors d')] \<and>
      rectHeight (last (tensors d'))
        = max (onSide Right (indices (last (tensors d'))))
              (onSide Left (indices (last (tensors d'))))) \<and>
   keepsRectHeights d (addTensor tname position left right up down opts d) \<and>
   keepsRectHeights d (addContraction i j cname cpos d) \<and>
   keepsRectHeights d (addSummation inh name place d) \<and>
   keepsRectHeights d (setSize w h d) \<and>
   (3 \<le> length (relevantTensors name d) \<longrightarrow>
      (\<exists>d'. addSummation inh name (Some xy) d = Inr d'
         \<and> length (tensors d') = Suc (length (tensors d))
         \<and> t_shape (last (tensors d')) = Dot
         \<and> length (indices (last (tensors d'))) = length (relevantTensors name d)
         \<and> rectHeight (last (tensors d')) = 0))"
proof (intro conjI allI impI)
  show "rectHeight (createTensor x y tname inds shp showLab labP sz)
     = max (onSide Right (case inds of None \<Rightarrow> [] | Some given \<Rightarrow> given))
           (onSide Left (case inds of None \<Rightarrow> [] | Some given \<Rightarrow> given))"
    by (cases inds) (simp_all add: createTensor_def onSide_def)
next
  fix d'
  assume run: "addTensor tname position left right up down opts d = Inr d'"
  then obtain pos where pos: "tensorPos d position = Inr pos"
    by (cases "tensorPos d position") (simp_all add: addTensor_Inl)
  from run have d': "d' = d\<lparr>tensors := tensors d @ [newTensor tname pos left right up down opts]\<rparr>"
    by (simp add: addTensor_Inr [OF pos])
  show "tensors d' = tensors d @ [last (tensors d')]"
    by (simp add: d')
  show "rectHeight (last (tensors d'))
        = max (onSide Right (indices (last (tensors d'))))
              (onSide Left (indices (last (tensors d'))))"
    by (simp add: d' newTensor_def createTensor_def onSide_def)
next
  show "keepsRectHeights d (addTensor tname position left right up down opts d)"
    by (rule keeps_addTensor)
  show "keepsRectHeights d (addContraction i j cname cpos d)"
    by (rule keeps_addContraction)
  show "keepsRectHeights d (addSummation inh name place d)"
    by (rule keeps_addSummation)
  show "keepsRectHeights d (setSize w h d)"
    by (rule keeps_setSize)
next
  assume "3 \<le> length (relevantTensors name d)"
  then show "\<exists>d'. addSummation inh name (Some xy) d = Inr d'
         \<and> length (tensors d') = Suc (length (tensors d))
         \<and> t_shape (last (tensors d')) = Dot
         \<and> length (indices (last (tensors d'))) = length (relevantTensors name d)
         \<and> rectHeight (last (tensors d')) = 0"
    by (rule dot_stale)
qed

theorem rectHeight_at_creation_witness:
  "addSummation noInherited ''k'' (Some \<lparr>xy_x = Some 5, xy_y = Some 5\<rparr>) threeK = Inr threeKsummed \<and>
   keepsRectHeights threeK (Inr threeKsummed) \<and>
   map rectHeight (tensors threeK) = [1, 1, 0] \<and>
   map rectHeight (tensors threeKsummed) = [1, 1, 0, 0] \<and>
   t_shape (last (tensors threeKsummed)) = Dot \<and>
   rectHeight (last (tensors threeKsummed)) = 0 \<and>
   onSide Right (indices (last (tensors threeKsummed))) = 2 \<and>
   (\<exists>t. addTensor ''B'' (Some RelRight) [''a'', ''b''] [''c''] [] [] noOpts singleA
          = Inr (singleA\<lparr>tensors := tensors singleA @ [t]\<rparr>) \<and> rectHeight t = 2)"
proof -
  let ?xy = "\<lparr>xy_x = Some 5, xy_y = Some 5\<rparr>"
  have n: "3 \<le> length (relevantTensors ''k'' threeK)"
    by (simp add: relevant_threeK)
  note inst = rectHeight_at_creation [where d = threeK and x = "Some 0" and y = "Some 0" and tname = "''B''" and inds = None
      and shp = None and showLab = None and labP = None and sz = None
      and position = "Some RelRight" and left = "[''a'', ''b'']" and right = "[''c'']"
      and up = "[]" and down = "[]" and opts = noOpts and i = 0 and j = 0 and cname = "''k''"
      and cpos = None and w = 300 and h = 300 and inh = noInherited and name = "''k''"
      and place = "Some ?xy" and xy = ?xy]
  from inst have k: "keepsRectHeights threeK (addSummation noInherited ''k'' (Some ?xy) threeK)"
    by blast
  from inst n obtain d' where "addSummation noInherited ''k'' (Some ?xy) threeK = Inr d'"
    and "t_shape (last (tensors d')) = Dot" and "rectHeight (last (tensors d')) = 0"
    by blast
  then have dot: "t_shape (last (tensors threeKsummed)) = Dot"
    "rectHeight (last (tensors threeKsummed)) = 0"
    by (simp_all add: summation_threeK)
  have r: "onSide Right (indices (last (tensors threeKsummed))) = 2"
    by (simp add: threeKsummed_def example_defs emptyDot_def)
  have h: "map rectHeight (tensors threeK) = [1, 1, 0]"
    "map rectHeight (tensors threeKsummed) = [1, 1, 0, 0]"
    by (simp_all add: threeK_def threeKsummed_def example_defs emptyDot_def)
  have t: "\<exists>t. addTensor ''B'' (Some RelRight) [''a'', ''b''] [''c''] [] [] noOpts singleA
          = Inr (singleA\<lparr>tensors := tensors singleA @ [t]\<rparr>) \<and> rectHeight t = 2"
  proof -
    let ?t = "newTensor ''B'' \<lparr>xy_x = Some 1, xy_y = Some 0\<rparr> [''a'', ''b''] [''c''] [] [] noOpts"
    have p: "tensorPos singleA (Some RelRight) = Inr \<lparr>xy_x = Some 1, xy_y = Some 0\<rparr>"
      by (simp add: tensorPos_def lastTensor_def singleA_def example_defs numAdd_safe)
    have run: "addTensor ''B'' (Some RelRight) [''a'', ''b''] [''c''] [] [] noOpts singleA
          = Inr (singleA\<lparr>tensors := tensors singleA @ [?t]\<rparr>)"
      by (rule addTensor_Inr [OF p])
    from rectHeight_at_creation [where d = singleA and x = "Some 0" and y = "Some 0" and tname = "''B''" and inds = None
      and shp = None and showLab = None and labP = None and sz = None
      and position = "Some RelRight" and left = "[''a'', ''b'']" and right = "[''c'']"
      and up = "[]" and down = "[]" and opts = noOpts and i = 0 and j = 0 and cname = "''k''"
      and cpos = None and w = 300 and h = 300 and inh = noInherited and name = "''k''"
      and place = "Some ?xy" and xy = ?xy] run
    have "rectHeight ?t = max (onSide Right (indices ?t)) (onSide Left (indices ?t))"
      by simp
    moreover have "indices ?t = sideIndices Left [''a'', ''b''] @ sideIndices Right [''c'']"
      by (simp add: newTensor_def createTensor_def sideIndices_def)
    ultimately have "rectHeight ?t = 2"
      by (simp add: sideIndices_def onSide_def)
    with run show ?thesis by blast
  qed
  from k dot r h t show ?thesis
    by (simp add: summation_threeK)
qed

end
